theory Spec2Isabelle
  imports Main "HOL-Library.Word"
begin

unbundle bit_operations_syntax

section \<open>Data model of vtfs.c\<close>

text \<open>
  The module keeps all its state in kernel heap objects that point to each other, and
  several claims depend on which pointers alias and on which objects have been freed.
  The model therefore uses an explicit store: a pointer is \<open>addr option\<close> (\<open>None\<close> is
  \<open>NULL\<close>), the store maps an address to the object allocated there, and \<open>kfree\<close>
  removes the object. Addresses are never reused, so a pointer to a freed object stays
  recognisable as dangling.
\<close>

type_synonym addr = nat
type_synonym byte = "8 word"
type_synonym size_t = "64 word"
type_synonym loff_t = "64 word"
type_synonym umode_t = "16 word"
type_synonym ino_t = "64 word"

text \<open>
  \<open>struct vtfs_file\<close>. The embedded \<open>struct list_head list\<close> is kept as the address of
  the \<open>vtfs_dir\<close> whose \<open>children\<close> list the node is linked into (\<open>None\<close> when it is in
  no list); the order of a list is kept in the \<open>children\<close> field of \<open>vtfs_dir\<close>. The
  \<open>name\<close> string is owned by the entry alone (every entry takes its own \<open>kstrdup\<close>),
  so it is stored in the record; \<open>None\<close> is a \<open>NULL\<close> name. The field \<open>size\<close> is
  called \<open>size_f\<close> here.
\<close>

record vtfs_file =
  list :: "addr option"
  name :: "string option"
  ino :: ino_t
  mode :: umode_t
  inode :: "addr option"
  size_f :: size_t
  data :: "addr option"

text \<open>\<open>struct vtfs_dir\<close>: the list head \<open>children\<close> with the nodes linked into it, in
  list order from \<open>head->next\<close> on, and \<open>self\<close>.\<close>

record vtfs_dir =
  children :: "addr list"
  self :: "addr option"

text \<open>The fields of the kernel's \<open>struct inode\<close> that vtfs.c reads or writes. The
  operation tables \<open>i_op\<close> and \<open>i_fop\<close> only select which function the kernel calls
  and are left out.\<close>

record vfs_inode =
  i_ino :: "64 word"
  i_mode :: umode_t
  i_nlink :: "32 word"
  i_private :: "addr option"

text \<open>What vtfs.c uses of a \<open>struct dentry\<close>: \<open>d_name.name\<close> and \<open>d_inode\<close>.\<close>

record dentry =
  d_name :: string
  d_inode :: "addr option"

datatype obj = File vtfs_file | Dir vtfs_dir | Buf "byte list" | Inode vfs_inode

text \<open>
  The store: the cells, the next address the allocator hands out, and the counter of
  \<open>get_next_ino\<close>. An address the allocator has not handed out yet holds no object.
\<close>

record heap =
  cells :: "addr \<Rightarrow> obj option"
  next_addr :: addr
  last_ino :: "32 word"

definition objs :: "heap \<Rightarrow> addr \<Rightarrow> obj option" where
  "objs h a = (if a < next_addr h then cells h a else None)"

text \<open>The error codes the module returns (as \<open>-E...\<close> in C).\<close>

datatype errno = EPERM | ENOENT | ENOMEM | EFAULT | EEXIST | EINVAL | ENOTEMPTY

text \<open>
  Executions whose behaviour C leaves undefined: a \<open>NULL\<close> dereference, an access through
  a pointer to a freed object, an access outside the bounds of a buffer, a pointer used at
  another type than the object it points to, and \<open>kfree\<close> of a freed object.
\<close>

datatype fault = NullDeref | Dangling | OutOfBounds | BadCast | DoubleFree

definition fbind :: "fault + 'a \<Rightarrow> ('a \<Rightarrow> fault + 'b) \<Rightarrow> fault + 'b" where
  "fbind m k = (case m of Inl e \<Rightarrow> Inl e | Inr v \<Rightarrow> k v)"

section \<open>Kernel primitives\<close>

text \<open>
  The kernel functions vtfs.c calls are not part of the repository. They are modelled
  after their kernel documentation; whether an allocation succeeds, where \<open>krealloc\<close>
  puts the block and how much user memory is accessible are parameters of the calls.
\<close>

definition get_inode :: "heap \<Rightarrow> addr option \<Rightarrow> fault + vfs_inode" where
  "get_inode h p =
     (case p of None \<Rightarrow> Inl NullDeref
      | Some a \<Rightarrow> (case objs h a of None \<Rightarrow> Inl Dangling
                   | Some (Inode i) \<Rightarrow> Inr i
                   | Some _ \<Rightarrow> Inl BadCast))"

definition get_file :: "heap \<Rightarrow> addr option \<Rightarrow> fault + vtfs_file" where
  "get_file h p =
     (case p of None \<Rightarrow> Inl NullDeref
      | Some a \<Rightarrow> (case objs h a of None \<Rightarrow> Inl Dangling
                   | Some (File f) \<Rightarrow> Inr f
                   | Some _ \<Rightarrow> Inl BadCast))"

definition get_dir :: "heap \<Rightarrow> addr option \<Rightarrow> fault + vtfs_dir" where
  "get_dir h p =
     (case p of None \<Rightarrow> Inl NullDeref
      | Some a \<Rightarrow> (case objs h a of None \<Rightarrow> Inl Dangling
                   | Some (Dir d) \<Rightarrow> Inr d
                   | Some _ \<Rightarrow> Inl BadCast))"

definition put :: "heap \<Rightarrow> addr \<Rightarrow> obj \<Rightarrow> heap" where
  "put h a v = h\<lparr>cells := (cells h)(a := Some v)\<rparr>"

text \<open>\<open>kmalloc\<close>/\<open>kzalloc\<close>/\<open>new_inode\<close> when they succeed: a fresh address holding the
  given object.\<close>

definition alloc :: "heap \<Rightarrow> obj \<Rightarrow> addr \<times> heap" where
  "alloc h v =
     (next_addr h,
      h\<lparr>cells := (cells h)(next_addr h := Some v), next_addr := Suc (next_addr h)\<rparr>)"

text \<open>\<open>kfree(p)\<close>: nothing for \<open>NULL\<close>, undefined for an object already freed.\<close>

definition kfree :: "heap \<Rightarrow> addr option \<Rightarrow> fault + heap" where
  "kfree h p =
     (case p of None \<Rightarrow> Inr h
      | Some a \<Rightarrow> (case objs h a of None \<Rightarrow> Inl DoubleFree
                   | Some _ \<Rightarrow> Inr (h\<lparr>cells := (cells h)(a := None)\<rparr>)))"

text \<open>
  \<open>krealloc(p, n, GFP_KERNEL)\<close>. It fails (returns \<open>NULL\<close>, the old block untouched),
  resizes the block where it is, or moves it to a fresh address and frees the old one.
  The first \<open>min(old, n)\<close> bytes are kept; the bytes beyond them are not initialised and
  are taken from \<open>junk\<close>.
\<close>

datatype alloc_choice = AllocFail | AllocInPlace | AllocMove

definition resize :: "nat \<Rightarrow> byte \<Rightarrow> byte list \<Rightarrow> byte list" where
  "resize n junk bs = take n bs @ replicate (n - length bs) junk"

definition krealloc ::
  "heap \<Rightarrow> addr option \<Rightarrow> nat \<Rightarrow> alloc_choice \<Rightarrow> byte \<Rightarrow> fault + (addr option \<times> heap)" where
  "krealloc h p n c junk =
     (case p of
        None \<Rightarrow>
          (if c = AllocFail then Inr (None, h)
           else (case alloc h (Buf (replicate n junk)) of (a, h') \<Rightarrow> Inr (Some a, h')))
      | Some a \<Rightarrow>
          (case objs h a of
             None \<Rightarrow> Inl Dangling
           | Some (Buf bs) \<Rightarrow>
               (case c of
                  AllocFail \<Rightarrow> Inr (None, h)
                | AllocInPlace \<Rightarrow> Inr (Some a, put h a (Buf (resize n junk bs)))
                | AllocMove \<Rightarrow>
                    (case alloc h (Buf (resize n junk bs)) of
                       (a', h') \<Rightarrow> Inr (Some a', h'\<lparr>cells := (cells h')(a := None)\<rparr>)))
           | Some _ \<Rightarrow> Inl BadCast))"

text \<open>Reading \<open>n\<close> bytes at \<open>p + off\<close> and writing the bytes \<open>bs\<close> at \<open>p + off\<close>. A
  transfer of no bytes touches no memory.\<close>

definition mem_read :: "heap \<Rightarrow> addr option \<Rightarrow> int \<Rightarrow> nat \<Rightarrow> fault + byte list" where
  "mem_read h p off n =
     (if n = 0 then Inr []
      else (case p of None \<Rightarrow> Inl NullDeref
            | Some a \<Rightarrow>
                (case objs h a of
                   None \<Rightarrow> Inl Dangling
                 | Some (Buf bs) \<Rightarrow>
                     (if 0 \<le> off \<and> nat off + n \<le> length bs
                      then Inr (take n (drop (nat off) bs))
                      else Inl OutOfBounds)
                 | Some _ \<Rightarrow> Inl BadCast)))"

definition mem_write :: "heap \<Rightarrow> addr option \<Rightarrow> int \<Rightarrow> byte list \<Rightarrow> fault + heap" where
  "mem_write h p off bs =
     (if bs = [] then Inr h
      else (case p of None \<Rightarrow> Inl NullDeref
            | Some a \<Rightarrow>
                (case objs h a of
                   None \<Rightarrow> Inl Dangling
                 | Some (Buf old) \<Rightarrow>
                     (if 0 \<le> off \<and> nat off + length bs \<le> length old
                      then Inr (put h a (Buf (take (nat off) old @ bs
                                               @ drop (nat off + length bs) old)))
                      else Inl OutOfBounds)
                 | Some _ \<Rightarrow> Inl BadCast)))"

text \<open>\<open>memset(p + off, 0, n)\<close>.\<close>

definition memset0 :: "heap \<Rightarrow> addr option \<Rightarrow> int \<Rightarrow> nat \<Rightarrow> fault + heap" where
  "memset0 h p off n = mem_write h p off (replicate n 0)"

text \<open>
  \<open>copy_to_user(to, from, n)\<close> with \<open>ucap\<close> writable bytes at \<open>to\<close>: the bytes that
  reach user memory and the number of bytes not copied.
\<close>

definition copy_to_user :: "nat \<Rightarrow> byte list \<Rightarrow> byte list \<times> nat" where
  "copy_to_user ucap src = (take ucap src, length src - ucap)"

text \<open>
  \<open>copy_from_user(to, from, n)\<close> where \<open>ubuf\<close> are the readable bytes at \<open>from\<close>: the
  \<open>n\<close> bytes stored at \<open>to\<close> (what could not be read is padded with zero bytes) and the
  number of bytes not copied.
\<close>

definition copy_from_user :: "byte list \<Rightarrow> nat \<Rightarrow> byte list \<times> nat" where
  "copy_from_user ubuf n = (take n ubuf @ replicate (n - length ubuf) 0, n - length ubuf)"

section \<open>File content: vtfs_read and vtfs_write\<close>

text \<open>
  \<open>vtfs_read(file, buf, len, ppos)\<close>. The open file is given by the address of its inode
  (\<open>file_inode(file)\<close>), the user buffer by its writable capacity. The result is the
  return value (an error code or the count), the bytes copied to the user, the new
  \<open>*ppos\<close> and the store.
\<close>

definition vtfs_read ::
  "heap \<Rightarrow> addr option \<Rightarrow> nat \<Rightarrow> size_t \<Rightarrow> loff_t
     \<Rightarrow> fault + ((errno + size_t) \<times> byte list \<times> loff_t \<times> heap)" where
  "vtfs_read h file ucap len ppos =
     fbind (get_inode h file) (\<lambda>inode.
       case i_private inode of
         None \<Rightarrow> Inr (Inr 0, [], ppos, h)
       | Some fa \<Rightarrow>
           fbind (get_file h (Some fa)) (\<lambda>file_data.
             if data file_data = None then Inr (Inr 0, [], ppos, h)
             else
               let available = size_f file_data - ppos in
               if available \<le> 0 then Inr (Inr 0, [], ppos, h)
               else
                 let to_copy = min len available in
                 fbind (mem_read h (data file_data) (sint ppos) (unat to_copy)) (\<lambda>src.
                   case copy_to_user ucap src of
                     (out, not_copied) \<Rightarrow>
                       if not_copied \<noteq> 0 then Inr (Inl EFAULT, out, ppos, h)
                       else Inr (Inr to_copy, out, ppos + to_copy, h))))"

text \<open>
  The block of vtfs_write that grows the content (\<open>if (new_size > file_data->size)\<close>):
  \<open>krealloc\<close>, the two \<open>memset\<close> calls over the new part, and the stores to \<open>data\<close>
  and \<open>size\<close> of the node at \<open>fa\<close>. The result \<open>None\<close> is the return of \<open>-ENOMEM\<close>.
\<close>

definition vtfs_write_grow ::
  "heap \<Rightarrow> addr \<Rightarrow> vtfs_file \<Rightarrow> size_t \<Rightarrow> alloc_choice \<Rightarrow> byte \<Rightarrow> fault + heap option" where
  "vtfs_write_grow h fa file_data new_size c junk =
     fbind (krealloc h (data file_data) (unat new_size) c junk) (\<lambda>(new_data, h1).
       if new_data = None then Inr None
       else
         fbind (if new_size > size_f file_data
                then memset0 h1 new_data (uint (size_f file_data))
                       (unat (new_size - size_f file_data))
                else Inr h1) (\<lambda>h2.
         fbind (memset0 h2 new_data (uint (size_f file_data))
                  (unat (new_size - size_f file_data))) (\<lambda>h3.
           Inr (Some (put h3 fa (File (file_data\<lparr>data := new_data, size_f := new_size\<rparr>)))))))"

text \<open>
  \<open>vtfs_write(file, buf, len, ppos)\<close>. \<open>ubuf\<close> are the readable bytes at \<open>buf\<close>; \<open>c\<close>
  and \<open>junk\<close> are the outcome of \<open>krealloc\<close>. The result is the return value, the new
  \<open>*ppos\<close> and the store.
\<close>

definition vtfs_write ::
  "heap \<Rightarrow> addr option \<Rightarrow> byte list \<Rightarrow> size_t \<Rightarrow> loff_t \<Rightarrow> alloc_choice \<Rightarrow> byte
     \<Rightarrow> fault + ((errno + size_t) \<times> loff_t \<times> heap)" where
  "vtfs_write h file ubuf len ppos c junk =
     fbind (get_inode h file) (\<lambda>inode.
       case i_private inode of
         None \<Rightarrow> Inr (Inl EINVAL, ppos, h)
       | Some fa \<Rightarrow>
           fbind (get_file h (Some fa)) (\<lambda>file_data.
             let new_size = max (ppos + len) (size_f file_data) in
             fbind
               (if new_size > size_f file_data
                then vtfs_write_grow h fa file_data new_size c junk
                else Inr (Some h))
               (\<lambda>grown.
                  case grown of
                    None \<Rightarrow> Inr (Inl ENOMEM, ppos, h)
                  | Some h4 \<Rightarrow>
                      fbind (get_file h4 (Some fa)) (\<lambda>fd.
                        case copy_from_user ubuf (unat len) of
                          (src, not_copied) \<Rightarrow>
                            fbind (mem_write h4 (data fd) (sint ppos) src) (\<lambda>h5.
                              if not_copied \<noteq> 0 then Inr (Inl EFAULT, ppos, h5)
                              else Inr (Inr len, ppos + len, h5))))))"

section \<open>Directories\<close>

text \<open>Constants of the kernel headers: the file type bits of a mode
  (\<open>S_IFMT = 0170000\<close>, \<open>S_IFDIR = 0040000\<close>, \<open>S_IFREG = 0100000\<close>) and the entry
  types \<open>dir_emit\<close> is given.\<close>

definition S_IFMT :: umode_t where "S_IFMT = 0xF000"
definition S_IFDIR :: umode_t where "S_IFDIR = 0x4000"
definition S_IFREG :: umode_t where "S_IFREG = 0x8000"

definition S_ISDIR :: "umode_t \<Rightarrow> bool" where
  "S_ISDIR m \<longleftrightarrow> m AND S_IFMT = S_IFDIR"

datatype d_type = DT_DIR | DT_REG

text \<open>\<open>get_next_ino()\<close>: the next number of a counter, never 0.\<close>

definition get_next_ino :: "heap \<Rightarrow> 32 word \<times> heap" where
  "get_next_ino h =
     (let res = last_ino h + 1; res = (if res = 0 then res + 1 else res)
      in (res, h\<lparr>last_ino := res\<rparr>))"

text \<open>\<open>inode_inc_link_count\<close> and \<open>inode_dec_link_count\<close>.\<close>

definition inode_inc_link_count :: "heap \<Rightarrow> addr option \<Rightarrow> fault + heap" where
  "inode_inc_link_count h p =
     fbind (get_inode h p) (\<lambda>i. Inr (put h (the p) (Inode (i\<lparr>i_nlink := i_nlink i + 1\<rparr>))))"

definition inode_dec_link_count :: "heap \<Rightarrow> addr option \<Rightarrow> fault + heap" where
  "inode_dec_link_count h p =
     fbind (get_inode h p) (\<lambda>i. Inr (put h (the p) (Inode (i\<lparr>i_nlink := i_nlink i - 1\<rparr>))))"

text \<open>Storing into \<open>inode->i_private\<close>.\<close>

definition set_private :: "heap \<Rightarrow> addr option \<Rightarrow> addr option \<Rightarrow> fault + heap" where
  "set_private h p v =
     fbind (get_inode h p) (\<lambda>i. Inr (put h (the p) (Inode (i\<lparr>i_private := v\<rparr>))))"

text \<open>
  \<open>vtfs_get_inode(sb, dir, mode, i_ino)\<close>. \<open>new_inode\<close> gives an inode with link count 1
  or \<open>NULL\<close>; the store to \<open>i_ino\<close> is outside the \<open>NULL\<close> test. The parameter \<open>i_ino\<close>
  is an \<open>int\<close>.
\<close>

definition vtfs_get_inode ::
  "heap \<Rightarrow> umode_t \<Rightarrow> 32 word \<Rightarrow> bool \<Rightarrow> fault + (addr option \<times> heap)" where
  "vtfs_get_inode h m ino_arg inode_ok =
     (if inode_ok then
        (case alloc h (Inode \<lparr>i_ino = 0, i_mode = 0, i_nlink = 1, i_private = None\<rparr>) of
           (a, h1) \<Rightarrow>
             fbind (get_inode h1 (Some a)) (\<lambda>i.
               Inr (Some a, put h1 a (Inode (i\<lparr>i_mode := m, i_ino := scast ino_arg\<rparr>)))))
      else Inl NullDeref)"

text \<open>
  The loop \<open>list_for_each\<close> with \<open>strcmp(entry->name, dentry->d_name.name) == 0\<close>, which
  vtfs_create, vtfs_link, vtfs_lookup and vtfs_unlink each run over the children of the
  parent: the first node whose name is equal, if any.
\<close>

fun list_find :: "heap \<Rightarrow> addr list \<Rightarrow> dentry option \<Rightarrow> fault + addr option" where
  "list_find h [] dn = Inr None"
| "list_find h (a # as) dn =
     (case get_file h (Some a) of
        Inl e \<Rightarrow> Inl e
      | Inr entry \<Rightarrow>
          (case (name entry, dn) of
             (Some s, Some d) \<Rightarrow> if s = d_name d then Inr (Some a) else list_find h as dn
           | _ \<Rightarrow> Inl NullDeref))"

text \<open>\<open>list_add(new, head)\<close> puts the node first, \<open>list_add_tail(new, head)\<close> last;
  \<open>list_del(entry)\<close> takes the node out of the list it is in.\<close>

definition list_add :: "heap \<Rightarrow> addr \<Rightarrow> addr option \<Rightarrow> fault + heap" where
  "list_add h new head =
     fbind (get_dir h head) (\<lambda>d.
     fbind (get_file h (Some new)) (\<lambda>f.
       Inr (put (put h (the head) (Dir (d\<lparr>children := new # children d\<rparr>)))
              new (File (f\<lparr>list := head\<rparr>)))))"

definition list_add_tail :: "heap \<Rightarrow> addr \<Rightarrow> addr option \<Rightarrow> fault + heap" where
  "list_add_tail h new head =
     fbind (get_dir h head) (\<lambda>d.
     fbind (get_file h (Some new)) (\<lambda>f.
       Inr (put (put h (the head) (Dir (d\<lparr>children := children d @ [new]\<rparr>)))
              new (File (f\<lparr>list := head\<rparr>)))))"

definition list_del :: "heap \<Rightarrow> addr \<Rightarrow> fault + heap" where
  "list_del h entry =
     fbind (get_file h (Some entry)) (\<lambda>f.
     fbind (get_dir h (list f)) (\<lambda>d.
       Inr (put (put h (the (list f)) (Dir (d\<lparr>children := remove1 entry (children d)\<rparr>)))
              entry (File (f\<lparr>list := None\<rparr>)))))"

text \<open>
  \<open>vtfs_create(idmap, parent_inode, child_dentry, mode, excl)\<close>; \<open>idmap\<close> and \<open>excl\<close>
  are not used. The result is the return value, the inode \<open>d_add\<close> binds the dentry to,
  and the store.
\<close>

definition vtfs_create ::
  "heap \<Rightarrow> addr option \<Rightarrow> dentry option \<Rightarrow> umode_t \<Rightarrow> bool \<Rightarrow> bool \<Rightarrow> bool
     \<Rightarrow> fault + ((errno + unit) \<times> addr option \<times> heap)" where
  "vtfs_create h parent_inode child_dentry m kmalloc_ok kstrdup_ok inode_ok =
     (if S_ISDIR m then Inr (Inl EPERM, None, h)
      else
        fbind (get_inode h parent_inode) (\<lambda>pi.
        fbind (get_dir h (i_private pi)) (\<lambda>parent_dir.
        fbind (list_find h (children parent_dir) child_dentry) (\<lambda>found.
          if found \<noteq> None then Inr (Inl EEXIST, None, h)
          else if \<not> kmalloc_ok then Inr (Inl ENOMEM, None, h)
          else
            (case child_dentry of
               None \<Rightarrow> Inl NullDeref
             | Some d \<Rightarrow>
                 (case get_next_ino h of
                    (n, h1) \<Rightarrow>
                      (case alloc h1 (File \<lparr>list = None,
                              name = (if kstrdup_ok then Some (d_name d) else None),
                              ino = ucast n, mode = m, inode = None,
                              size_f = 0, data = None\<rparr>) of
                         (new_file, h2) \<Rightarrow>
                           fbind (vtfs_get_inode h2 m n inode_ok) (\<lambda>(ip, h3).
                           fbind (get_file h3 (Some new_file)) (\<lambda>f.
                           fbind (set_private (put h3 new_file (File (f\<lparr>inode := ip\<rparr>)))
                                    ip (Some new_file)) (\<lambda>h4.
                           fbind (list_add h4 new_file (i_private pi)) (\<lambda>h5.
                             Inr (Inr (), ip, h5))))))))))))"

text \<open>
  \<open>vtfs_unlink(parent_inode, child_dentry)\<close>. The node found by name is taken out of the
  list, its name, its \<open>data\<close> and the node itself are freed, and the link count of
  \<open>child_dentry->d_inode\<close> is decremented.
\<close>

definition vtfs_unlink ::
  "heap \<Rightarrow> addr option \<Rightarrow> dentry option \<Rightarrow> fault + ((errno + unit) \<times> heap)" where
  "vtfs_unlink h parent_inode child_dentry =
     (if parent_inode = None \<or> child_dentry = None then Inr (Inl EINVAL, h)
      else
        fbind (get_inode h parent_inode) (\<lambda>pi.
          if i_private pi = None then Inr (Inl EFAULT, h)
          else
            fbind (get_dir h (i_private pi)) (\<lambda>parent_dir.
            fbind (list_find h (children parent_dir) child_dentry) (\<lambda>found.
              case found of
                None \<Rightarrow> Inr (Inl ENOENT, h)
              | Some file_entry \<Rightarrow>
                  fbind (list_del h file_entry) (\<lambda>h1.
                  fbind (get_file h1 (Some file_entry)) (\<lambda>f.
                  fbind (kfree h1 (data f)) (\<lambda>h2.
                  fbind (kfree h2 (Some file_entry)) (\<lambda>h3.
                  fbind (inode_dec_link_count h3 (d_inode (the child_dentry))) (\<lambda>h4.
                    Inr (Inr (), h4))))))))))"

text \<open>
  \<open>vtfs_link(old_dentry, parent_inode, new_dentry)\<close>. The new node is zeroed by
  \<open>kzalloc\<close> and then given the name, the \<open>size\<close>, the \<open>data\<close> pointer and the inode of
  the old one.
\<close>

definition vtfs_link ::
  "heap \<Rightarrow> dentry option \<Rightarrow> addr option \<Rightarrow> dentry option \<Rightarrow> bool \<Rightarrow> bool
     \<Rightarrow> fault + ((errno + unit) \<times> addr option \<times> heap)" where
  "vtfs_link h old_dentry parent_inode new_dentry kzalloc_ok kstrdup_ok =
     (case old_dentry of
        None \<Rightarrow> Inl NullDeref
      | Some od \<Rightarrow>
          fbind (get_inode h (d_inode od)) (\<lambda>oi.
          fbind (get_inode h parent_inode) (\<lambda>pi.
          fbind (get_file h (i_private oi)) (\<lambda>old_file.
            if S_ISDIR (mode old_file) then Inr (Inl EPERM, None, h)
            else
              fbind (get_dir h (i_private pi)) (\<lambda>parent_dir.
              fbind (list_find h (children parent_dir) new_dentry) (\<lambda>found.
                if found \<noteq> None then Inr (Inl EEXIST, None, h)
                else if \<not> kzalloc_ok then Inr (Inl ENOMEM, None, h)
                else
                  (case new_dentry of
                     None \<Rightarrow> Inl NullDeref
                   | Some nd \<Rightarrow>
                       (case alloc h (File \<lparr>list = None,
                               name = (if kstrdup_ok then Some (d_name nd) else None),
                               ino = 0, mode = 0, inode = d_inode od,
                               size_f = size_f old_file, data = data old_file\<rparr>) of
                          (new_file, h1) \<Rightarrow>
                            fbind (list_add_tail h1 new_file (i_private pi)) (\<lambda>h2.
                            fbind (inode_inc_link_count h2 (d_inode od)) (\<lambda>h3.
                              Inr (Inr (), d_inode od, h3)))))))))))"

text \<open>
  \<open>vtfs_lookup(parent_inode, child_dentry, flag)\<close>: the inode the dentry is bound to
  afterwards, which is the \<open>inode\<close> of the first node with the name, or what it was before
  when there is none. The function itself always returns \<open>NULL\<close>.
\<close>

definition vtfs_lookup :: "heap \<Rightarrow> addr option \<Rightarrow> dentry option \<Rightarrow> fault + addr option" where
  "vtfs_lookup h parent_inode child_dentry =
     fbind (get_inode h parent_inode) (\<lambda>pi.
     fbind (get_dir h (i_private pi)) (\<lambda>parent_dir.
     fbind (list_find h (children parent_dir) child_dentry) (\<lambda>found.
       case found of
         None \<Rightarrow> Inr (case child_dentry of None \<Rightarrow> None | Some d \<Rightarrow> d_inode d)
       | Some entry \<Rightarrow> fbind (get_file h (Some entry)) (\<lambda>f. Inr (inode f)))))"

text \<open>
  The loop of vtfs_iterate. \<open>room\<close> is the number of entries \<open>dir_emit\<close> still accepts;
  \<open>emitted\<close> collects the name, inode number and type of the entries passed to it.
\<close>

fun iterate_loop ::
  "heap \<Rightarrow> addr list \<Rightarrow> 64 word \<Rightarrow> 64 word \<Rightarrow> loff_t \<Rightarrow> nat \<Rightarrow> (string \<times> ino_t \<times> d_type) list
     \<Rightarrow> fault + ((errno + unit) \<times> (string \<times> ino_t \<times> d_type) list \<times> loff_t)" where
  "iterate_loop h [] index offset pos room emitted = Inr (Inr (), emitted, pos)"
| "iterate_loop h (a # as) index offset pos room emitted =
     (if index < offset then iterate_loop h as (index + 1) offset pos room emitted
      else
        (case get_file h (Some a) of
           Inl e \<Rightarrow> Inl e
         | Inr entry \<Rightarrow>
             (case name entry of
                None \<Rightarrow> Inl NullDeref
              | Some s \<Rightarrow>
                  (case room of
                     0 \<Rightarrow> Inr (Inl ENOMEM, emitted, pos)
                   | Suc room' \<Rightarrow>
                       iterate_loop h as (index + 1) offset (pos + 1) room'
                         (emitted @ [(s, ino entry,
                                      if S_ISDIR (mode entry) then DT_DIR else DT_REG)])))))"

text \<open>\<open>vtfs_iterate(flip, ctx)\<close>, with the directory given by its inode and the context
  by \<open>ctx->pos\<close> and the room left.\<close>

definition vtfs_iterate ::
  "heap \<Rightarrow> addr option \<Rightarrow> loff_t \<Rightarrow> nat
     \<Rightarrow> fault + ((errno + unit) \<times> (string \<times> ino_t \<times> d_type) list \<times> loff_t)" where
  "vtfs_iterate h flip pos room =
     fbind (get_inode h flip) (\<lambda>i.
     fbind (get_dir h (i_private i)) (\<lambda>dir.
       iterate_loop h (children dir) 0 pos pos room []))"

text \<open>
  \<open>vtfs_mkdir(idmap, parent_inode, child_dentry, mode)\<close>. The three allocations may each
  fail; there is no search of the parent's children for the name.
\<close>

definition vtfs_mkdir ::
  "heap \<Rightarrow> addr option \<Rightarrow> dentry option \<Rightarrow> umode_t \<Rightarrow> bool \<Rightarrow> bool \<Rightarrow> bool \<Rightarrow> bool
     \<Rightarrow> fault + ((errno + unit) \<times> addr option \<times> heap)" where
  "vtfs_mkdir h parent_inode child_dentry m kzalloc_file_ok kstrdup_ok kzalloc_dir_ok inode_ok =
     (if parent_inode = None \<or> child_dentry = None then Inr (Inl EINVAL, None, h)
      else
        fbind (get_inode h parent_inode) (\<lambda>pi.
          if i_private pi = None then Inr (Inl EFAULT, None, h)
          else if \<not> kzalloc_file_ok then Inr (Inl ENOMEM, None, h)
          else
            (case alloc h (File \<lparr>list = None, name = None, ino = 0, mode = 0, inode = None,
                    size_f = 0, data = None\<rparr>) of
               (new_file, h1) \<Rightarrow>
                 if \<not> kstrdup_ok then
                   fbind (kfree h1 (Some new_file)) (\<lambda>h2. Inr (Inl ENOMEM, None, h2))
                 else if \<not> kzalloc_dir_ok then
                   fbind (kfree h1 (Some new_file)) (\<lambda>h2. Inr (Inl ENOMEM, None, h2))
                 else
                   (case alloc h1 (Dir \<lparr>children = [], self = Some new_file\<rparr>) of
                      (new_dir, h2) \<Rightarrow>
                        (case get_next_ino h2 of
                           (n, h3) \<Rightarrow>
                             fbind (vtfs_get_inode h3 (S_IFDIR OR m) n inode_ok) (\<lambda>(ip, h4).
                             fbind (set_private
                                      (put h4 new_file
                                         (File \<lparr>list = None,
                                            name = Some (d_name (the child_dentry)),
                                            ino = ucast n, mode = S_IFDIR OR m, inode = ip,
                                            size_f = 0, data = None\<rparr>))
                                      ip (Some new_dir)) (\<lambda>h5.
                             fbind (list_add_tail h5 new_file (i_private pi)) (\<lambda>h6.
                               Inr (Inr (), ip, h6)))))))))"

text \<open>
  \<open>vtfs_rmdir(parent_inode, child_dentry)\<close>. The directory is reached through
  \<open>child_dentry->d_inode->i_private\<close>, not through the children of the parent.
\<close>

definition vtfs_rmdir ::
  "heap \<Rightarrow> addr option \<Rightarrow> dentry option \<Rightarrow> fault + ((errno + unit) \<times> heap)" where
  "vtfs_rmdir h parent_inode child_dentry =
     (if parent_inode = None \<or> child_dentry = None then Inr (Inl EINVAL, h)
      else
        fbind (get_inode h parent_inode) (\<lambda>pi.
          let target_inode = d_inode (the child_dentry) in
          if i_private pi = None \<or> target_inode = None then Inr (Inl EFAULT, h)
          else
            fbind (get_inode h target_inode) (\<lambda>ti.
              if i_private ti = None then Inr (Inl EFAULT, h)
              else
                fbind (get_dir h (i_private ti)) (\<lambda>target_dir.
                  case self target_dir of
                    None \<Rightarrow> Inr (Inl EFAULT, h)
                  | Some target_file \<Rightarrow>
                      if children target_dir \<noteq> [] then Inr (Inl ENOTEMPTY, h)
                      else
                        fbind (list_del h target_file) (\<lambda>h1.
                        fbind (inode_dec_link_count h1 target_inode) (\<lambda>h2.
                        fbind (kfree h2 (Some target_file)) (\<lambda>h3.
                        fbind (kfree h3 (i_private ti)) (\<lambda>h4.
                          Inr (Inr (), h4)))))))))"

text \<open>
  \<open>vtfs_fill_super(sb, data, silent)\<close>: the root directory, its node (number 100, mode
  \<open>S_IFDIR | 0777\<close>, that is \<open>S_IFDIR | 0x1FF\<close>, in no list) and its inode. The result is the return value, the
  root inode handed to \<open>d_make_root\<close>, and the store.
\<close>

definition vtfs_fill_super ::
  "heap \<Rightarrow> bool \<Rightarrow> bool \<Rightarrow> bool \<Rightarrow> bool \<Rightarrow> bool
     \<Rightarrow> fault + ((errno + unit) \<times> addr option \<times> heap)" where
  "vtfs_fill_super h kmalloc_dir_ok kmalloc_file_ok kstrdup_ok inode_ok root_ok =
     (if \<not> kmalloc_dir_ok then Inr (Inl ENOMEM, None, h)
      else
        (case alloc h (Dir \<lparr>children = [], self = None\<rparr>) of
           (root_dir, h1) \<Rightarrow>
             if \<not> kmalloc_file_ok then
               fbind (kfree h1 (Some root_dir)) (\<lambda>h2. Inr (Inl ENOMEM, None, h2))
             else
               (case alloc h1 (File \<lparr>list = None,
                       name = (if kstrdup_ok then Some ''/'' else None),
                       ino = 100, mode = S_IFDIR OR 0x1FF, inode = None,
                       size_f = 0, data = None\<rparr>) of
                  (root_file, h2) \<Rightarrow>
                    fbind (vtfs_get_inode h2 (S_IFDIR OR 0x1FF) 100 inode_ok) (\<lambda>(ip, h3).
                    fbind (get_file h3 (Some root_file)) (\<lambda>f.
                    fbind (get_dir h3 (Some root_dir)) (\<lambda>d.
                    fbind (set_private
                             (put (put h3 root_file (File (f\<lparr>inode := ip\<rparr>)))
                                root_dir (Dir (d\<lparr>self := Some root_file\<rparr>)))
                             ip (Some root_dir)) (\<lambda>h4.
                      if \<not> root_ok then
                        fbind (kfree h4 (Some root_file)) (\<lambda>h5.
                        fbind (kfree h5 (Some root_dir)) (\<lambda>h6. Inr (Inl ENOMEM, None, h6)))
                      else Inr (Inr (), ip, h4))))))))"

text \<open>The store before the module has allocated anything.\<close>

definition empty_heap :: heap where
  "empty_heap = \<lparr>cells = (\<lambda>_. None), next_addr = 1, last_ino = 0\<rparr>"

section \<open>An invariant of file nodes\<close>

text \<open>
  The open file's inode is live, its \<open>i_private\<close> points to a live node, and the node's
  \<open>data\<close> is \<open>NULL\<close> with \<open>size\<close> 0 or points to a live buffer of exactly \<open>size\<close>
  bytes. vtfs_create establishes this and vtfs_write keeps it.
\<close>

definition file_ok :: "heap \<Rightarrow> addr option \<Rightarrow> bool" where
  "file_ok h file =
     (case get_inode h file of
        Inl _ \<Rightarrow> False
      | Inr i \<Rightarrow>
          (case get_file h (i_private i) of
             Inl _ \<Rightarrow> False
           | Inr fd \<Rightarrow>
               (case data fd of
                  None \<Rightarrow> size_f fd = 0
                | Some ba \<Rightarrow>
                    (case objs h ba of
                       Some (Buf bs) \<Rightarrow> length bs = unat (size_f fd)
                     | _ \<Rightarrow> False))))"

section \<open>Example stores\<close>

text \<open>
  The stores of the example runs, written out cell by cell. \<open>fs_mounted\<close> is the store
  after vtfs_fill_super: the root directory at address 1, its node at 2, its inode at 3.
\<close>

definition fs_mounted :: heap where
  "fs_mounted =
     \<lparr>cells = (\<lambda>_. None)
        (1 := Some (Dir \<lparr>children = [], self = Some 2\<rparr>),
         2 := Some (File \<lparr>list = None, name = Some ''/'', ino = 100, mode = 0x41FF,
                      inode = Some 3, size_f = 0, data = None\<rparr>),
         3 := Some (Inode \<lparr>i_ino = 100, i_mode = 0x41FF, i_nlink = 1, i_private = Some 1\<rparr>)),
      next_addr = 4, last_ino = 0\<rparr>"

text \<open>After vtfs_create of the regular file \<open>a\<close> (mode \<open>S_IFREG | 0644\<close>) in the root:
  its node at 4, its inode at 5.\<close>

definition fs_a :: heap where
  "fs_a =
     \<lparr>cells = (cells fs_mounted)
        (1 := Some (Dir \<lparr>children = [4], self = Some 2\<rparr>),
         4 := Some (File \<lparr>list = Some 1, name = Some ''a'', ino = 1, mode = 0x81A4,
                      inode = Some 5, size_f = 0, data = None\<rparr>),
         5 := Some (Inode \<lparr>i_ino = 1, i_mode = 0x81A4, i_nlink = 1, i_private = Some 4\<rparr>)),
      next_addr = 6, last_ino = 1\<rparr>"

text \<open>After writing the two bytes \<open>hi\<close> at offset 0 of \<open>a\<close>: the content buffer at 6.\<close>

definition fs_a_hi :: heap where
  "fs_a_hi =
     \<lparr>cells = (cells fs_a)
        (4 := Some (File \<lparr>list = Some 1, name = Some ''a'', ino = 1, mode = 0x81A4,
                      inode = Some 5, size_f = 2, data = Some 6\<rparr>),
         6 := Some (Buf [0x68, 0x69])),
      next_addr = 7, last_ino = 1\<rparr>"

text \<open>After vtfs_link of \<open>a\<close> to the new name \<open>b\<close>: the node of \<open>b\<close> at 7, with the
  same \<open>data\<close> pointer and the same inode as the node of \<open>a\<close>.\<close>

definition fs_a_b :: heap where
  "fs_a_b =
     \<lparr>cells = (cells fs_a_hi)
        (1 := Some (Dir \<lparr>children = [4, 7], self = Some 2\<rparr>),
         5 := Some (Inode \<lparr>i_ino = 1, i_mode = 0x81A4, i_nlink = 2, i_private = Some 4\<rparr>),
         7 := Some (File \<lparr>list = Some 1, name = Some ''b'', ino = 0, mode = 0,
                      inode = Some 5, size_f = 2, data = Some 6\<rparr>)),
      next_addr = 8, last_ino = 1\<rparr>"

text \<open>After vtfs_unlink of \<open>a\<close>: the node at 4 and the buffer at 6 are freed.\<close>

definition fs_b :: heap where
  "fs_b =
     \<lparr>cells = (cells fs_a_b)
        (1 := Some (Dir \<lparr>children = [7], self = Some 2\<rparr>),
         4 := None,
         5 := Some (Inode \<lparr>i_ino = 1, i_mode = 0x81A4, i_nlink = 1, i_private = Some 4\<rparr>),
         6 := None),
      next_addr = 8, last_ino = 1\<rparr>"

text \<open>After vtfs_mkdir of the name \<open>a\<close> (mode 0755) in the root of \<open>fs_a\<close>, where the
  file \<open>a\<close> exists: the node of the directory at 6, its \<open>vtfs_dir\<close> at 7, its inode
  at 8.\<close>

definition fs_a_a :: heap where
  "fs_a_a =
     \<lparr>cells = (cells fs_a)
        (1 := Some (Dir \<lparr>children = [4, 6], self = Some 2\<rparr>),
         6 := Some (File \<lparr>list = Some 1, name = Some ''a'', ino = 2, mode = 0x41ED,
                      inode = Some 8, size_f = 0, data = None\<rparr>),
         7 := Some (Dir \<lparr>children = [], self = Some 6\<rparr>),
         8 := Some (Inode \<lparr>i_ino = 2, i_mode = 0x41ED, i_nlink = 1, i_private = Some 7\<rparr>)),
      next_addr = 9, last_ino = 2\<rparr>"

text \<open>After vtfs_unlink of the name \<open>a\<close> in \<open>fs_a_a\<close>: the node of the file is gone.\<close>

definition fs_a_dir :: heap where
  "fs_a_dir =
     \<lparr>cells = (cells fs_a_a)
        (1 := Some (Dir \<lparr>children = [6], self = Some 2\<rparr>),
         4 := None,
         5 := Some (Inode \<lparr>i_ino = 1, i_mode = 0x81A4, i_nlink = 0, i_private = Some 4\<rparr>)),
      next_addr = 9, last_ino = 2\<rparr>"

text \<open>After vtfs_mkdir of \<open>d\<close> (mode 0755) in the root of \<open>fs_mounted\<close>: the node at 4,
  the \<open>vtfs_dir\<close> at 5, the inode at 6.\<close>

definition fs_d :: heap where
  "fs_d =
     \<lparr>cells = (cells fs_mounted)
        (1 := Some (Dir \<lparr>children = [4], self = Some 2\<rparr>),
         4 := Some (File \<lparr>list = Some 1, name = Some ''d'', ino = 1, mode = 0x41ED,
                      inode = Some 6, size_f = 0, data = None\<rparr>),
         5 := Some (Dir \<lparr>children = [], self = Some 4\<rparr>),
         6 := Some (Inode \<lparr>i_ino = 1, i_mode = 0x41ED, i_nlink = 1, i_private = Some 5\<rparr>)),
      next_addr = 7, last_ino = 1\<rparr>"

text \<open>After vtfs_unlink of \<open>d\<close>: the node at 4 is freed, the \<open>vtfs_dir\<close> at 5 is not.\<close>

definition fs_d_unlinked :: heap where
  "fs_d_unlinked =
     \<lparr>cells = (cells fs_d)
        (1 := Some (Dir \<lparr>children = [], self = Some 2\<rparr>),
         4 := None,
         6 := Some (Inode \<lparr>i_ino = 1, i_mode = 0x41ED, i_nlink = 0, i_private = Some 5\<rparr>)),
      next_addr = 7, last_ino = 1\<rparr>"

text \<open>After vtfs_create of a second regular file \<open>b\<close> in the root of \<open>fs_a\<close>.\<close>

definition fs_b_a :: heap where
  "fs_b_a =
     \<lparr>cells = (cells fs_a)
        (1 := Some (Dir \<lparr>children = [6, 4], self = Some 2\<rparr>),
         6 := Some (File \<lparr>list = Some 1, name = Some ''b'', ino = 2, mode = 0x81A4,
                      inode = Some 7, size_f = 0, data = None\<rparr>),
         7 := Some (Inode \<lparr>i_ino = 2, i_mode = 0x81A4, i_nlink = 1, i_private = Some 6\<rparr>)),
      next_addr = 8, last_ino = 2\<rparr>"

text \<open>After writing \<open>AB\<close> at offset 0 of the empty file \<open>a\<close> of \<open>fs_a\<close>, and then
  \<open>X\<close> at offset 5 (\<open>krealloc\<close> moves the buffer from 6 to 7).\<close>

definition fs_ab :: heap where
  "fs_ab =
     \<lparr>cells = (cells fs_a)
        (4 := Some (File \<lparr>list = Some 1, name = Some ''a'', ino = 1, mode = 0x81A4,
                      inode = Some 5, size_f = 2, data = Some 6\<rparr>),
         6 := Some (Buf [0x41, 0x42])),
      next_addr = 7, last_ino = 1\<rparr>"

definition fs_abx :: heap where
  "fs_abx =
     \<lparr>cells = (cells fs_ab)
        (4 := Some (File \<lparr>list = Some 1, name = Some ''a'', ino = 1, mode = 0x81A4,
                      inode = Some 5, size_f = 6, data = Some 7\<rparr>),
         6 := None,
         7 := Some (Buf [0x41, 0x42, 0, 0, 0, 0x58])),
      next_addr = 8, last_ino = 1\<rparr>"

section \<open>Lemmas about the store\<close>

lemmas prim_defs = fbind_def get_inode_def get_file_def get_dir_def put_def alloc_def kfree_def
  krealloc_def resize_def mem_read_def mem_write_def memset0_def copy_to_user_def
  copy_from_user_def objs_def get_next_ino_def inode_inc_link_count_def
  inode_dec_link_count_def set_private_def vtfs_get_inode_def list_add_def list_add_tail_def
  list_del_def S_ISDIR_def S_IFMT_def S_IFDIR_def S_IFREG_def Let_def

lemmas state_defs = fs_mounted_def fs_a_def fs_a_hi_def fs_a_b_def fs_b_def fs_a_a_def
  fs_a_dir_def fs_d_def fs_d_unlinked_def fs_b_a_def fs_ab_def fs_abx_def

lemma objs_put_live: "objs h a = Some x \<Longrightarrow> objs (put h a v) b = (if b = a then Some v else objs h b)"
  by (simp add: objs_def put_def split: if_splits)

lemma get_inode_Inr: "get_inode h p = Inr i \<longleftrightarrow> (\<exists>a. p = Some a \<and> objs h a = Some (Inode i))"
  by (auto simp: get_inode_def split: option.splits obj.splits)

lemma get_file_Inr: "get_file h p = Inr f \<longleftrightarrow> (\<exists>a. p = Some a \<and> objs h a = Some (File f))"
  by (auto simp: get_file_def split: option.splits obj.splits)

lemma fbind_simps [simp]: "fbind (Inr v) k = k v" "fbind (Inl e) k = Inl e"
  by (simp_all add: fbind_def)

lemma fbind_Inr: "fbind m k = Inr r \<longleftrightarrow> (\<exists>v. m = Inr v \<and> k v = Inr r)"
  by (cases m) (simp_all add: fbind_def)

lemma mem_read_length: "mem_read h p off n = Inr bs \<Longrightarrow> length bs = n"
  by (auto simp: mem_read_def split: if_splits option.splits obj.splits)

lemma krealloc_ok:
  assumes c: "c \<noteq> AllocFail"
    and p: "p = None \<or> (\<exists>a bs. p = Some a \<and> objs h a = Some (Buf bs))"
  shows "\<exists>a' h1 X. krealloc h p n c junk = Inr (Some a', h1) \<and> objs h1 a' = Some (Buf X)
           \<and> length X = n
           \<and> (\<forall>b v. objs h b = Some v \<longrightarrow> Some b \<noteq> p \<longrightarrow> objs h1 b = Some v \<and> b \<noteq> a')"
proof (cases p)
  case None
  with c show ?thesis
    by (auto simp: krealloc_def alloc_def objs_def)
next
  case (Some a)
  with p obtain bs where bs: "objs h a = Some (Buf bs)" by auto
  show ?thesis
  proof (cases c)
    case AllocFail
    with c show ?thesis by simp
  next
    case AllocInPlace
    with Some bs show ?thesis
      by (auto simp: krealloc_def resize_def objs_put_live)
  next
    case AllocMove
    with Some bs show ?thesis
      by (auto simp: krealloc_def resize_def alloc_def objs_def split: if_splits)
  qed
qed

lemma memset0_tail:
  assumes X: "objs h a = Some (Buf X)" and le: "s \<le> length X"
  shows "memset0 h (Some a) (int s) (length X - s)
           = Inr (if s = length X then h else put h a (Buf (take s X @ replicate (length X - s) 0)))"
  using X le by (auto simp: memset0_def mem_write_def)


lemma grow_post:
  assumes fd: "objs h fa = Some (File fd)"
    and dat: "data fd = None \<or> (\<exists>a bs. data fd = Some a \<and> objs h a = Some (Buf bs))"
    and gt: "size_f fd < new_size" and c: "c \<noteq> AllocFail"
  shows "\<exists>ba Y h'. vtfs_write_grow h fa fd new_size c junk = Inr (Some h')
      \<and> objs h' fa = Some (File (fd\<lparr>data := Some ba, size_f := new_size\<rparr>))
      \<and> objs h' ba = Some (Buf Y) \<and> length Y = unat new_size
      \<and> drop (unat (size_f fd)) Y = replicate (unat new_size - unat (size_f fd)) 0
      \<and> (\<forall>b x. objs h b = Some (Inode x) \<longrightarrow> objs h' b = Some (Inode x))"
proof -
  let ?s = "unat (size_f fd)" and ?n = "unat new_size"
  from krealloc_ok [OF c dat, of ?n junk] obtain a' h1 X where
    kr: "krealloc h (data fd) ?n c junk = Inr (Some a', h1)"
    and X: "objs h1 a' = Some (Buf X)" and lenX: "length X = ?n"
    and frame: "\<And>b v. objs h b = Some v \<Longrightarrow> Some b \<noteq> data fd \<Longrightarrow> objs h1 b = Some v \<and> b \<noteq> a'"
    by blast
  from gt have sn: "?s < ?n" by (simp add: word_less_nat_alt)
  from gt have sub: "unat (new_size - size_f fd) = length X - ?s"
    by (simp add: unat_sub lenX)
  have off: "uint (size_f fd) = int ?s" by simp
  let ?Y = "take ?s X @ replicate (length X - ?s) 0"
  let ?h2 = "put h1 a' (Buf ?Y)"
  have m1: "memset0 h1 (Some a') (uint (size_f fd)) (unat (new_size - size_f fd)) = Inr ?h2"
    unfolding off sub using memset0_tail [OF X, of ?s] sn lenX by simp
  have Y2: "objs ?h2 a' = Some (Buf ?Y)" using X by (simp add: objs_put_live)
  have lenY: "length ?Y = length X" using sn lenX by simp
  have m2: "memset0 ?h2 (Some a') (uint (size_f fd)) (unat (new_size - size_f fd)) = Inr ?h2"
  proof -
    have "memset0 ?h2 (Some a') (int ?s) (length ?Y - ?s)
            = Inr (put ?h2 a' (Buf (take ?s ?Y @ replicate (length ?Y - ?s) 0)))"
      using memset0_tail [OF Y2, of ?s] sn lenX by simp
    moreover have "take ?s ?Y @ replicate (length ?Y - ?s) 0 = ?Y"
      using sn lenX by simp
    moreover have "put ?h2 a' (Buf ?Y) = ?h2" by (simp add: put_def)
    ultimately show ?thesis unfolding off sub lenY by simp
  qed
  have fa_neq: "Some fa \<noteq> data fd" using fd dat by auto
  from frame [OF fd fa_neq] have fa1: "objs h1 fa = Some (File fd)" and fa_a: "fa \<noteq> a'" by auto
  let ?h' = "put ?h2 fa (File (fd\<lparr>data := Some a', size_f := new_size\<rparr>))"
  have res: "vtfs_write_grow h fa fd new_size c junk = Inr (Some ?h')"
    using kr gt m1 m2 by (simp add: vtfs_write_grow_def fbind_def)
  have fa2: "objs ?h2 fa = Some (File fd)" using fa1 fa_a X by (simp add: objs_put_live)
  have p1: "objs ?h' fa = Some (File (fd\<lparr>data := Some a', size_f := new_size\<rparr>))"
    using fa2 by (simp add: objs_put_live)
  have p2: "objs ?h' a' = Some (Buf ?Y)" using fa2 Y2 fa_a by (simp add: objs_put_live)
  have p3: "length ?Y = ?n" using lenY lenX by simp
  have p4: "drop ?s ?Y = replicate (?n - ?s) 0" using sn lenX by simp
  have p5: "\<forall>b x. objs h b = Some (Inode x) \<longrightarrow> objs ?h' b = Some (Inode x)"
  proof (intro allI impI)
    fix b x assume b: "objs h b = Some (Inode x)"
    have "Some b \<noteq> data fd" using b dat by auto
    from frame [OF b this] have "objs h1 b = Some (Inode x)" "b \<noteq> a'" by auto
    moreover have "b \<noteq> fa" using b fd by auto
    ultimately show "objs ?h' b = Some (Inode x)"
      using X fa2 by (simp add: objs_put_live)
  qed
  from res p1 p2 p3 p4 p5 show ?thesis by blast
qed

lemma file_okD:
  assumes "file_ok h file"
  shows "\<exists>ia i fa fd. file = Some ia \<and> objs h ia = Some (Inode i) \<and> i_private i = Some fa
           \<and> objs h fa = Some (File fd)
           \<and> (data fd = None \<or>
               (\<exists>ba bs. data fd = Some ba \<and> objs h ba = Some (Buf bs)
                         \<and> length bs = unat (size_f fd)))"
proof -
  from assms obtain i where i: "get_inode h file = Inr i"
    by (auto simp: file_ok_def split: sum.splits)
  with assms obtain fd where fd: "get_file h (i_private i) = Inr fd"
    by (auto simp: file_ok_def split: sum.splits)
  from assms i fd have "data fd = None \<or>
               (\<exists>ba bs. data fd = Some ba \<and> objs h ba = Some (Buf bs)
                         \<and> length bs = unat (size_f fd))"
    by (auto simp: file_ok_def split: option.splits obj.splits)
  with i fd show ?thesis
    unfolding get_inode_Inr get_file_Inr by blast
qed

lemma file_ok_NULL:
  assumes "file_ok h file" and "get_inode h file = Inr i"
    and "get_file h (i_private i) = Inr fd" and "data fd = None"
  shows "size_f fd = 0"
  using assms by (simp add: file_ok_def)

lemma get_inode_live: "objs h a = Some (Inode i) \<Longrightarrow> get_inode h (Some a) = Inr i"
  by (simp add: get_inode_def)

lemma get_file_live: "objs h a = Some (File f) \<Longrightarrow> get_file h (Some a) = Inr f"
  by (simp add: get_file_def)

lemma write_unfold:
  assumes "objs h ia = Some (Inode i)" "i_private i = Some fa" "objs h fa = Some (File fd)"
  shows "vtfs_write h (Some ia) ubuf len ppos c junk =
           fbind (if size_f fd < max (ppos + len) (size_f fd)
                  then vtfs_write_grow h fa fd (max (ppos + len) (size_f fd)) c junk
                  else Inr (Some h))
             (\<lambda>grown. case grown of
                 None \<Rightarrow> Inr (Inl ENOMEM, ppos, h)
               | Some h4 \<Rightarrow>
                   fbind (get_file h4 (Some fa)) (\<lambda>fd.
                     case copy_from_user ubuf (unat len) of
                       (src, not_copied) \<Rightarrow>
                         fbind (mem_write h4 (data fd) (sint ppos) src) (\<lambda>h5.
                           if not_copied \<noteq> 0 then Inr (Inl EFAULT, ppos, h5)
                           else Inr (Inr len, ppos + len, h5))))"
  unfolding vtfs_write_def
  by (simp only: get_inode_live [OF assms(1)] get_file_live [OF assms(3)] assms(2)
        fbind_simps option.case Let_def)

lemma grow_fail:
  assumes dat: "data fd = None \<or> (\<exists>a bs. data fd = Some a \<and> objs h a = Some (Buf bs))"
  shows "vtfs_write_grow h fa fd new_size AllocFail junk = Inr None"
  using dat by (auto simp: vtfs_write_grow_def krealloc_def fbind_def)

lemma mem_write_Inr:
  assumes "mem_write h p off bs = Inr h'" and "bs \<noteq> []"
  shows "\<exists>a old. p = Some a \<and> objs h a = Some (Buf old) \<and> 0 \<le> off
           \<and> nat off + length bs \<le> length old
           \<and> h' = put h a (Buf (take (nat off) old @ bs @ drop (nat off + length bs) old))"
  using assms
  by (auto simp: mem_write_def split: option.splits obj.splits if_splits)

lemma copy_post:
  assumes fa: "objs h4 fa = Some (File fd4)"
    and res: "(case copy_from_user ubuf (unat len) of
                (src, not_copied) \<Rightarrow>
                   fbind (mem_write h4 (data fd4) (sint ppos) src) (\<lambda>h5.
                      if not_copied \<noteq> 0 then Inr (Inl EFAULT, ppos, h5)
                      else Inr (Inr len, ppos + len, h5)))
               = (Inr (Inr n, ppos', h') :: fault + ((errno + size_t) \<times> loff_t \<times> heap))"
  shows "n = len \<and> ppos' = ppos + len \<and> unat len \<le> length ubuf \<and>
         (if len = 0 then h' = h4
          else \<exists>ba Y. data fd4 = Some ba \<and> objs h4 ba = Some (Buf Y) \<and> 0 \<le> sint ppos
                 \<and> nat (sint ppos) + unat len \<le> length Y
                 \<and> h' = put h4 ba (Buf (take (nat (sint ppos)) Y @ take (unat len) ubuf
                                         @ drop (nat (sint ppos) + unat len) Y)))"
proof -
  let ?src = "take (unat len) ubuf @ replicate (unat len - length ubuf) 0"
  from res obtain h5 where
    mw: "mem_write h4 (data fd4) (sint ppos) ?src = Inr h5"
    and nc: "unat len - length ubuf = 0" and eqs: "n = len" "ppos' = ppos + len" "h' = h5"
    by (auto simp: copy_from_user_def fbind_Inr split: if_splits)
  from nc have le: "unat len \<le> length ubuf" by simp
  then have src: "?src = take (unat len) ubuf" and lsrc: "length ?src = unat len" by simp_all
  show ?thesis
  proof (cases "len = 0")
    case True
    with mw eqs le show ?thesis by (simp add: mem_write_def)
  next
    case False
    then have "unat len \<noteq> 0" by (simp add: unat_eq_0)
    with lsrc have ne: "?src \<noteq> []" by (metis length_0_conv)
    from mem_write_Inr [OF mw ne] False eqs le src lsrc show ?thesis
      by auto
  qed
qed


lemma nat_sint_unat:
  assumes "0 \<le> sint (x :: 'a::len word)"
  shows "nat (sint x) = unat x"
proof -
  have "sint x < 2 ^ (LENGTH('a) - 1)" by (rule sint_lt)
  also have "\<dots> \<le> (2 :: int) ^ LENGTH('a)" by simp
  finally have "take_bit LENGTH('a) (sint x) = sint x"
    using assms by (simp add: take_bit_int_eq_self)
  then have "uint x = sint x" by (simp add: uint_sint)
  then show ?thesis by (metis nat_uint_eq)
qed

lemma zeros_window:
  assumes d: "drop s Yg = replicate (n - s) (0::byte)" and so: "s \<le> off" and on: "off \<le> n"
    and len: "length Yg = n"
  shows "take (off - s) (drop s (take off Yg @ rest)) = replicate (off - s) 0"
proof -
  have "drop s (take off Yg @ rest) = drop s (take off Yg) @ rest"
    using so on len by simp
  moreover have "length (drop s (take off Yg)) = off - s" using on len by simp
  ultimately have "take (off - s) (drop s (take off Yg @ rest)) = drop s (take off Yg)"
    by simp
  also have "\<dots> = take (off - s) (drop s Yg)" by (simp add: drop_take)
  also have "\<dots> = replicate (off - s) 0" using d on so by (simp add: min_def)
  finally show ?thesis .
qed

lemma write_post:
  assumes ia: "objs h ia = Some (Inode i)" and pr: "i_private i = Some fa"
    and fa: "objs h fa = Some (File fd)"
    and dat: "data fd = None \<or>
              (\<exists>ba bs. data fd = Some ba \<and> objs h ba = Some (Buf bs)
                        \<and> length bs = unat (size_f fd))"
    and w: "vtfs_write h (Some ia) ubuf len ppos c junk = Inr (Inr n, ppos', h')"
  shows "n = len \<and> ppos' = ppos + len \<and> unat len \<le> length ubuf
     \<and> objs h' ia = Some (Inode i) \<and>
     (\<exists>fd'. objs h' fa = Some (File fd') \<and> size_f fd' = max (ppos + len) (size_f fd) \<and>
        ((data fd' = None \<and> len = 0 \<and> \<not> size_f fd < ppos \<and> data fd = None) \<or>
         (\<exists>ba Y. data fd' = Some ba \<and> objs h' ba = Some (Buf Y)
            \<and> length Y = unat (size_f fd') \<and>
            (len \<noteq> 0 \<longrightarrow> 0 \<le> sint ppos \<and> nat (sint ppos) + unat len \<le> length Y
               \<and> take (unat len) (drop (nat (sint ppos)) Y) = take (unat len) ubuf) \<and>
            (size_f fd < ppos \<longrightarrow> ppos \<le> size_f fd'
               \<and> take (unat ppos - unat (size_f fd)) (drop (unat (size_f fd)) Y)
                   = replicate (unat ppos - unat (size_f fd)) 0))))"
proof -
  let ?ns = "max (ppos + len) (size_f fd)"
  let ?l = "unat len" and ?s = "unat (size_f fd)"
  let ?src = "take ?l ubuf"
  note unf = write_unfold [OF ia pr fa, of ubuf len ppos c junk]
  from dat have dat': "data fd = None \<or> (\<exists>a bs. data fd = Some a \<and> objs h a = Some (Buf bs))"
    by blast
  show ?thesis
  proof (cases "size_f fd < ?ns")
    case True
    have c: "c \<noteq> AllocFail"
    proof
      assume "c = AllocFail"
      with unf True grow_fail [OF dat'] w show False by simp
    qed
    from grow_post [OF fa dat' True c, of junk] obtain ba Yg h4 where
      g: "vtfs_write_grow h fa fd ?ns c junk = Inr (Some h4)"
      and fa4: "objs h4 fa = Some (File (fd\<lparr>data := Some ba, size_f := ?ns\<rparr>))"
      and ba4: "objs h4 ba = Some (Buf Yg)" and lenYg: "length Yg = unat ?ns"
      and zer: "drop ?s Yg = replicate (unat ?ns - ?s) 0"
      and fr: "\<forall>b x. objs h b = Some (Inode x) \<longrightarrow> objs h4 b = Some (Inode x)"
      by blast
    let ?fd4 = "fd\<lparr>data := Some ba, size_f := ?ns\<rparr>"
    from fr ia have ia4: "objs h4 ia = Some (Inode i)" by blast
    from True have sn: "?s < unat ?ns" by (simp add: word_less_nat_alt)
    from unf True g w have tail:
      "(case copy_from_user ubuf (unat len) of
          (src, not_copied) \<Rightarrow>
             fbind (mem_write h4 (data ?fd4) (sint ppos) src) (\<lambda>h5.
                if not_copied \<noteq> 0 then Inr (Inl EFAULT, ppos, h5)
                else Inr (Inr len, ppos + len, h5)))
        = (Inr (Inr n, ppos', h') :: fault + ((errno + size_t) \<times> loff_t \<times> heap))"
      by (simp add: get_file_live [OF fa4])
    note cp = copy_post [OF fa4 tail]
    show ?thesis
    proof (cases "len = 0")
      case True
      with cp have h': "h' = h4" and eqs: "n = len" "ppos' = ppos + len" "?l \<le> length ubuf"
        by simp_all
      have P2: "size_f fd < ppos \<longrightarrow> ppos \<le> ?ns
               \<and> take (unat ppos - ?s) (drop ?s Yg) = replicate (unat ppos - ?s) 0"
      proof
        assume lt: "size_f fd < ppos"
        from True have le: "ppos \<le> ?ns" by simp
        then have "unat ppos \<le> unat ?ns" by (simp add: word_le_nat_alt)
        with zer le show "ppos \<le> ?ns
               \<and> take (unat ppos - ?s) (drop ?s Yg) = replicate (unat ppos - ?s) 0"
          by (simp add: min_def)
      qed
      define fd4 where "fd4 = fd\<lparr>data := Some ba, size_f := ?ns\<rparr>"
      have r1: "objs h' fa = Some (File fd4)" using fa4 h' by (simp add: fd4_def)
      have r2: "size_f fd4 = ?ns" "data fd4 = Some ba" by (simp_all add: fd4_def)
      have r3: "objs h' ba = Some (Buf Yg)" "length Yg = unat (size_f fd4)"
        using ba4 h' lenYg r2 by simp_all
      have r4: "objs h' ia = Some (Inode i)" using ia4 h' by simp
      have r5: "len \<noteq> 0 \<longrightarrow> 0 \<le> sint ppos \<and> nat (sint ppos) + unat len \<le> length Yg
               \<and> take (unat len) (drop (nat (sint ppos)) Yg) = take (unat len) ubuf"
        using True by simp
      have r6: "size_f fd < ppos \<longrightarrow> ppos \<le> size_f fd4
               \<and> take (unat ppos - ?s) (drop ?s Yg) = replicate (unat ppos - ?s) 0"
        using P2 r2 by simp
      from eqs r1 r2 r3 r4 r5 r6 show ?thesis by blast
    next
      case False
      with cp obtain Y0 where eqs: "n = len" "ppos' = ppos + len" "?l \<le> length ubuf"
        and Y0: "objs h4 ba = Some (Buf Y0)" and nn: "0 \<le> sint ppos"
        and inb: "nat (sint ppos) + ?l \<le> length Y0"
        and h': "h' = put h4 ba (Buf (take (nat (sint ppos)) Y0 @ ?src
                                         @ drop (nat (sint ppos) + ?l) Y0))"
        by auto
      from Y0 ba4 have [simp]: "Y0 = Yg" by simp
      let ?off = "nat (sint ppos)"
      let ?Y = "take ?off Yg @ ?src @ drop (?off + ?l) Yg"
      have off: "?off = unat ppos" using nn by (rule nat_sint_unat)
      have lsrc: "length ?src = ?l" using eqs by simp
      have ia_ne: "ia \<noteq> ba" using ia4 ba4 by auto
      have fa_ne: "fa \<noteq> ba" using fa4 ba4 by auto
      have q1: "objs h' ia = Some (Inode i)" using h' ia4 ba4 ia_ne by (simp add: objs_put_live)
      have q2: "objs h' fa = Some (File ?fd4)" using h' fa4 ba4 fa_ne by (simp add: objs_put_live)
      have q3: "objs h' ba = Some (Buf ?Y)" using h' ba4 by (simp add: objs_put_live)
      have q4: "length ?Y = unat ?ns" using inb lenYg lsrc by simp
      have q5: "take ?l (drop ?off ?Y) = ?src" using inb lsrc by simp
      have q6: "size_f fd < ppos \<longrightarrow> ppos \<le> ?ns
               \<and> take (unat ppos - ?s) (drop ?s ?Y) = replicate (unat ppos - ?s) 0"
      proof
        assume lt: "size_f fd < ppos"
        then have so: "?s \<le> unat ppos" by (simp add: word_less_nat_alt)
        from inb off lenYg have on: "unat ppos \<le> unat ?ns" by simp
        then have "ppos \<le> ?ns" by (simp add: word_le_nat_alt)
        moreover have "take (unat ppos - ?s) (drop ?s ?Y) = replicate (unat ppos - ?s) 0"
          unfolding off using zeros_window [OF zer so on lenYg] .
        ultimately show "ppos \<le> ?ns
               \<and> take (unat ppos - ?s) (drop ?s ?Y) = replicate (unat ppos - ?s) 0" ..
      qed
      define fd4 where "fd4 = fd\<lparr>data := Some ba, size_f := ?ns\<rparr>"
      define Y where "Y = ?Y"
      have r1: "objs h' fa = Some (File fd4)" using q2 by (simp add: fd4_def)
      have r2: "size_f fd4 = ?ns" "data fd4 = Some ba" by (simp_all add: fd4_def)
      have r3: "objs h' ba = Some (Buf Y)" "length Y = unat (size_f fd4)"
        using q3 q4 r2 by (simp_all add: Y_def)
      have inb': "nat (sint ppos) + unat len \<le> length Y" using inb q4 lenYg by (simp add: Y_def)
      have r5: "len \<noteq> 0 \<longrightarrow> 0 \<le> sint ppos \<and> nat (sint ppos) + unat len \<le> length Y
               \<and> take (unat len) (drop (nat (sint ppos)) Y) = take (unat len) ubuf"
        using nn inb' q5 unfolding Y_def by blast
      have r6: "size_f fd < ppos \<longrightarrow> ppos \<le> size_f fd4
               \<and> take (unat ppos - ?s) (drop ?s Y) = replicate (unat ppos - ?s) 0"
        using q6 r2 unfolding Y_def by simp
      from eqs q1 r1 r2 r3 r5 r6 show ?thesis by blast
    qed
  next
    case False
    then have ns: "?ns = size_f fd" by (auto simp: max_def)
    from unf False w have tail:
      "(case copy_from_user ubuf (unat len) of
          (src, not_copied) \<Rightarrow>
             fbind (mem_write h (data fd) (sint ppos) src) (\<lambda>h5.
                if not_copied \<noteq> 0 then Inr (Inl EFAULT, ppos, h5)
                else Inr (Inr len, ppos + len, h5)))
        = (Inr (Inr n, ppos', h') :: fault + ((errno + size_t) \<times> loff_t \<times> heap))"
      by (simp add: get_file_live [OF fa])
    note cp = copy_post [OF fa tail]
    show ?thesis
    proof (cases "len = 0")
      case True
      with cp have h': "h' = h" and eqs: "n = len" "ppos' = ppos + len" "?l \<le> length ubuf"
        by simp_all
      from True ns have nlt: "\<not> size_f fd < ppos" by (simp add: max_def split: if_splits)
      have r0: "size_f fd = ?ns" using ns by simp
      have r1: "objs h' fa = Some (File fd)" "objs h' ia = Some (Inode i)"
        using fa ia h' by simp_all
      show ?thesis
      proof (cases "data fd")
        case None
        with eqs r0 r1 nlt True show ?thesis by blast
      next
        case (Some ba)
        with dat obtain bs where bs: "objs h' ba = Some (Buf bs)" "length bs = unat (size_f fd)"
          using h' by auto
        have r5: "len \<noteq> 0 \<longrightarrow> 0 \<le> sint ppos \<and> nat (sint ppos) + unat len \<le> length bs
               \<and> take (unat len) (drop (nat (sint ppos)) bs) = take (unat len) ubuf"
          using True by simp
        have r6: "size_f fd < ppos \<longrightarrow> ppos \<le> size_f fd
               \<and> take (unat ppos - ?s) (drop ?s bs) = replicate (unat ppos - ?s) 0"
          using nlt by simp
        from eqs r0 r1 Some bs r5 r6 show ?thesis by blast
      qed
    next
      case False
      with cp obtain ba Y0 where eqs: "n = len" "ppos' = ppos + len" "?l \<le> length ubuf"
        and dba: "data fd = Some ba"
        and Y0: "objs h ba = Some (Buf Y0)" and nn: "0 \<le> sint ppos"
        and inb: "nat (sint ppos) + ?l \<le> length Y0"
        and h': "h' = put h ba (Buf (take (nat (sint ppos)) Y0 @ ?src
                                         @ drop (nat (sint ppos) + ?l) Y0))"
        by auto
      from dat dba Y0 have lenY0: "length Y0 = ?s" by auto
      let ?off = "nat (sint ppos)"
      let ?Y = "take ?off Y0 @ ?src @ drop (?off + ?l) Y0"
      have off: "?off = unat ppos" using nn by (rule nat_sint_unat)
      have lsrc: "length ?src = ?l" using eqs by simp
      have ia_ne: "ia \<noteq> ba" using ia Y0 by auto
      have fa_ne: "fa \<noteq> ba" using fa Y0 by auto
      have q1: "objs h' ia = Some (Inode i)" using h' ia Y0 ia_ne by (simp add: objs_put_live)
      have q2: "objs h' fa = Some (File fd)" using h' fa Y0 fa_ne by (simp add: objs_put_live)
      have q3: "objs h' ba = Some (Buf ?Y)" using h' Y0 by (simp add: objs_put_live)
      have q4: "length ?Y = unat (size_f fd)" using inb lenY0 lsrc by simp
      have q5: "take ?l (drop ?off ?Y) = ?src" using inb lsrc by simp
      have q6: "\<not> size_f fd < ppos"
        using inb off lenY0 by (simp add: word_less_nat_alt)
      define Y where "Y = ?Y"
      have r0: "size_f fd = ?ns" using ns by simp
      have r3: "objs h' ba = Some (Buf Y)" "length Y = unat (size_f fd)"
        using q3 q4 by (simp_all add: Y_def)
      have inb': "nat (sint ppos) + unat len \<le> length Y" using inb q4 lenY0 by (simp add: Y_def)
      have r5: "len \<noteq> 0 \<longrightarrow> 0 \<le> sint ppos \<and> nat (sint ppos) + unat len \<le> length Y
               \<and> take (unat len) (drop (nat (sint ppos)) Y) = take (unat len) ubuf"
        using nn inb' q5 unfolding Y_def by blast
      have r6: "size_f fd < ppos \<longrightarrow> ppos \<le> size_f fd
               \<and> take (unat ppos - ?s) (drop ?s Y) = replicate (unat ppos - ?s) 0"
        using q6 by simp
      from eqs q1 q2 r0 dba r3 r5 r6 show ?thesis by blast
    qed
  qed
qed


lemma read_in_range:
  assumes ia: "objs h ia = Some (Inode i)" and pr: "i_private i = Some fa"
    and fa: "objs h fa = Some (File fd)" and ba: "data fd = Some ba"
    and Y: "objs h ba = Some (Buf Y)" and lenY: "length Y = unat (size_f fd)"
    and le: "ppos \<le> size_f fd"
    and nn: "min len (size_f fd - ppos) \<noteq> 0 \<longrightarrow> 0 \<le> sint ppos"
  shows "vtfs_read h (Some ia) ucap len ppos =
           (if ucap < unat (min len (size_f fd - ppos))
            then Inr (Inl EFAULT,
                      take ucap (take (unat (min len (size_f fd - ppos))) (drop (unat ppos) Y)),
                      ppos, h)
            else Inr (Inr (min len (size_f fd - ppos)),
                      take (unat (min len (size_f fd - ppos))) (drop (unat ppos) Y),
                      ppos + min len (size_f fd - ppos), h))"
proof -
  let ?k = "min len (size_f fd - ppos)"
  have unf: "vtfs_read h (Some ia) ucap len ppos =
       (if size_f fd - ppos \<le> 0 then Inr (Inr 0, [], ppos, h)
        else fbind (mem_read h (data fd) (sint ppos) (unat ?k)) (\<lambda>src.
               case copy_to_user ucap src of
                 (out, not_copied) \<Rightarrow>
                   if not_copied \<noteq> 0 then Inr (Inl EFAULT, out, ppos, h)
                   else Inr (Inr ?k, out, ppos + ?k, h)))"
    unfolding vtfs_read_def
    by (simp only: get_inode_live [OF ia] get_file_live [OF fa] pr ba
          fbind_simps option.case Let_def option.distinct if_False)
  show ?thesis
  proof (cases "size_f fd - ppos \<le> 0")
    case True
    then have "size_f fd - ppos = 0" by simp
    then have "?k = 0" by simp
    with unf True show ?thesis by simp
  next
    case False
    have sub: "unat (size_f fd - ppos) = unat (size_f fd) - unat ppos"
      using le by (simp add: unat_sub)
    have kle: "unat ?k \<le> unat (size_f fd) - unat ppos"
      using sub by (simp add: min_def word_le_nat_alt split: if_splits)
    have ple: "unat ppos \<le> unat (size_f fd)" using le by (simp add: word_le_nat_alt)
    have mr: "mem_read h (data fd) (sint ppos) (unat ?k) = Inr (take (unat ?k) (drop (unat ppos) Y))"
    proof (cases "unat ?k = 0")
      case True
      then show ?thesis by (simp add: mem_read_def)
    next
      case False
      then have "?k \<noteq> 0" by (simp add: unat_eq_0)
      with nn have nn': "0 \<le> sint ppos" by blast
      then have off: "nat (sint ppos) = unat ppos" by (rule nat_sint_unat)
      from False nn' off kle ple lenY show ?thesis
        by (simp add: mem_read_def ba Y)
    qed
    define src where "src = take (unat ?k) (drop (unat ppos) Y)"
    have len: "length src = unat ?k"
      using kle lenY by (simp add: src_def)
    have cu: "copy_to_user ucap src = (take ucap src, unat ?k - ucap)"
      unfolding copy_to_user_def len ..
    have "vtfs_read h (Some ia) ucap len ppos =
            (if unat ?k - ucap \<noteq> 0 then Inr (Inl EFAULT, take ucap src, ppos, h)
             else Inr (Inr ?k, take ucap src, ppos + ?k, h))"
      using unf False mr cu by (simp add: src_def)
    moreover have "unat ?k - ucap \<noteq> 0 \<longleftrightarrow> ucap < unat ?k" by auto
    moreover have "\<not> ucap < unat ?k \<Longrightarrow> take ucap src = src" using len by simp
    ultimately show ?thesis unfolding src_def by auto
  qed
qed

text \<open>A read at an offset from 0 to the size of a well-formed node always has a result.\<close>

lemma read_has_result:
  assumes ok: "file_ok h file"
    and gi: "get_inode h file = Inr i" and gf: "get_file h (i_private i) = Inr fd"
    and nn: "0 \<le> sint ppos" and le: "ppos \<le> size_f fd"
  shows "\<exists>r out ppos'. vtfs_read h file ucap len ppos = Inr (r, out, ppos', h)"
proof -
  from file_okD [OF ok] obtain ia i0 fa fd0 where
    f: "file = Some ia" and ia0: "objs h ia = Some (Inode i0)" and pr0: "i_private i0 = Some fa"
    and fa0: "objs h fa = Some (File fd0)"
    and dat0: "data fd0 = None \<or>
              (\<exists>ba bs. data fd0 = Some ba \<and> objs h ba = Some (Buf bs)
                        \<and> length bs = unat (size_f fd0))"
    by blast
  from gi f ia0 have [simp]: "i0 = i" by (simp add: get_inode_def)
  from gf pr0 fa0 have [simp]: "fd0 = fd" by (simp add: get_file_def)
  from dat0 show ?thesis
  proof
    assume "data fd0 = None"
    then show ?thesis
      unfolding f vtfs_read_def
      using ia0 pr0 fa0 by (simp add: get_inode_live get_file_live)
  next
    assume "\<exists>ba bs. data fd0 = Some ba \<and> objs h ba = Some (Buf bs)
                        \<and> length bs = unat (size_f fd0)"
    then obtain ba bs where ba: "data fd = Some ba" and bs: "objs h ba = Some (Buf bs)"
      and len: "length bs = unat (size_f fd)" by auto
    from ia0 pr0 fa0 have ia: "objs h ia = Some (Inode i)" and pr: "i_private i = Some fa"
      and fa: "objs h fa = Some (File fd)" by simp_all
    from nn have nn': "min len (size_f fd - ppos) \<noteq> 0 \<longrightarrow> 0 \<le> sint ppos" by blast
    from read_in_range [OF ia pr fa ba bs len le nn', of ucap]
    show ?thesis unfolding f by (cases "ucap < unat (min len (size_f fd - ppos))") simp_all
  qed
qed

lemma roundtrip:
  assumes ok: "file_ok h file"
    and w: "vtfs_write h file ubuf len ppos c junk = Inr (Inr n, ppos', h')"
    and cap: "unat len \<le> ucap"
  shows "vtfs_read h' file ucap len ppos = Inr (Inr len, take (unat len) ubuf, ppos + len, h')"
proof -
  from file_okD [OF ok] obtain ia i fa fd where
    f: "file = Some ia" and ia: "objs h ia = Some (Inode i)" and pr: "i_private i = Some fa"
    and fa: "objs h fa = Some (File fd)"
    and dat: "data fd = None \<or>
              (\<exists>ba bs. data fd = Some ba \<and> objs h ba = Some (Buf bs)
                        \<and> length bs = unat (size_f fd))"
    by blast
  from write_post [OF ia pr fa dat w [unfolded f]] obtain fd' where
    ia': "objs h' ia = Some (Inode i)" and fa': "objs h' fa = Some (File fd')"
    and sz: "size_f fd' = max (ppos + len) (size_f fd)"
    and alt: "(data fd' = None \<and> len = 0 \<and> \<not> size_f fd < ppos) \<or>
         (\<exists>ba Y. data fd' = Some ba \<and> objs h' ba = Some (Buf Y)
            \<and> length Y = unat (size_f fd') \<and>
            (len \<noteq> 0 \<longrightarrow> 0 \<le> sint ppos \<and> nat (sint ppos) + unat len \<le> length Y
               \<and> take (unat len) (drop (nat (sint ppos)) Y) = take (unat len) ubuf) \<and>
            (size_f fd < ppos \<longrightarrow> ppos \<le> size_f fd'
               \<and> take (unat ppos - unat (size_f fd)) (drop (unat (size_f fd)) Y)
                   = replicate (unat ppos - unat (size_f fd)) 0))"
    by blast
  from alt show ?thesis
  proof
    assume a: "data fd' = None \<and> len = 0 \<and> \<not> size_f fd < ppos"
    then show ?thesis
      unfolding f vtfs_read_def
      by (simp add: get_inode_live [OF ia'] get_file_live [OF fa'] pr)
  next
    assume "\<exists>ba Y. data fd' = Some ba \<and> objs h' ba = Some (Buf Y)
            \<and> length Y = unat (size_f fd') \<and>
            (len \<noteq> 0 \<longrightarrow> 0 \<le> sint ppos \<and> nat (sint ppos) + unat len \<le> length Y
               \<and> take (unat len) (drop (nat (sint ppos)) Y) = take (unat len) ubuf) \<and>
            (size_f fd < ppos \<longrightarrow> ppos \<le> size_f fd'
               \<and> take (unat ppos - unat (size_f fd)) (drop (unat (size_f fd)) Y)
                   = replicate (unat ppos - unat (size_f fd)) 0)"
    then obtain ba Y where ba: "data fd' = Some ba" and Y: "objs h' ba = Some (Buf Y)"
      and lenY: "length Y = unat (size_f fd')"
      and P1: "len \<noteq> 0 \<longrightarrow> 0 \<le> sint ppos \<and> nat (sint ppos) + unat len \<le> length Y
               \<and> take (unat len) (drop (nat (sint ppos)) Y) = take (unat len) ubuf"
      by blast
    have le: "ppos \<le> size_f fd'" and fit: "unat ppos + unat len \<le> unat (size_f fd')"
      and bytes: "take (unat len) (drop (unat ppos) Y) = take (unat len) ubuf"
      and nn: "len \<noteq> 0 \<longrightarrow> 0 \<le> sint ppos"
    proof -
      show "len \<noteq> 0 \<longrightarrow> 0 \<le> sint ppos" using P1 by blast
      have "ppos \<le> size_f fd' \<and> unat ppos + unat len \<le> unat (size_f fd')
             \<and> take (unat len) (drop (unat ppos) Y) = take (unat len) ubuf"
      proof (cases "len = 0")
        case True
        have "ppos \<le> max ppos (size_f fd)" by simp
        then have "unat ppos \<le> unat (max ppos (size_f fd))" by (simp only: word_le_nat_alt)
        with True sz show ?thesis by (simp add: word_le_nat_alt)
      next
        case False
        with P1 have nn: "0 \<le> sint ppos" and inb: "nat (sint ppos) + unat len \<le> length Y"
          and tk: "take (unat len) (drop (nat (sint ppos)) Y) = take (unat len) ubuf"
          by blast+
        from nn have off: "nat (sint ppos) = unat ppos" by (rule nat_sint_unat)
        from inb tk off lenY show ?thesis by (simp add: word_le_nat_alt)
      qed
      then show "ppos \<le> size_f fd'" "unat ppos + unat len \<le> unat (size_f fd')"
        "take (unat len) (drop (unat ppos) Y) = take (unat len) ubuf" by blast+
    qed
    have "unat (size_f fd' - ppos) = unat (size_f fd') - unat ppos"
      using le by (simp add: unat_sub)
    with fit have "len \<le> size_f fd' - ppos" by (simp add: word_le_nat_alt)
    then have k: "min len (size_f fd' - ppos) = len" by (simp add: min_def)
    from read_in_range [OF ia' pr fa' ba Y lenY le, of len ucap] k nn cap bytes
    show ?thesis unfolding f by simp
  qed
qed


lemma zero_fill:
  assumes ok: "file_ok h file"
    and gi: "get_inode h file = Inr i" and gf: "get_file h (i_private i) = Inr fd"
    and w: "vtfs_write h file ubuf len ppos c junk = Inr (Inr n, ppos', h')"
    and lt: "size_f fd < ppos" and nn: "0 \<le> sint (size_f fd)"
    and cap: "unat (ppos - size_f fd) \<le> ucap"
  shows "vtfs_read h' file ucap (ppos - size_f fd) (size_f fd)
           = Inr (Inr (ppos - size_f fd), replicate (unat (ppos - size_f fd)) 0, ppos, h')"
proof -
  from file_okD [OF ok] obtain ia i0 fa fd0 where
    f: "file = Some ia" and ia0: "objs h ia = Some (Inode i0)" and pr0: "i_private i0 = Some fa"
    and fa0: "objs h fa = Some (File fd0)"
    and dat0: "data fd0 = None \<or>
              (\<exists>ba bs. data fd0 = Some ba \<and> objs h ba = Some (Buf bs)
                        \<and> length bs = unat (size_f fd0))"
    by blast
  from gi f ia0 have [simp]: "i0 = i" by (simp add: get_inode_def)
  from gf pr0 fa0 have [simp]: "fd0 = fd" by (simp add: get_file_def)
  from ia0 pr0 fa0 dat0 have ia: "objs h ia = Some (Inode i)" and pr: "i_private i = Some fa"
    and fa: "objs h fa = Some (File fd)"
    and dat: "data fd = None \<or>
              (\<exists>ba bs. data fd = Some ba \<and> objs h ba = Some (Buf bs)
                        \<and> length bs = unat (size_f fd))"
    by simp_all
  let ?s = "size_f fd"
  from write_post [OF ia pr fa dat w [unfolded f]] lt obtain fd' ba Y where
    ia': "objs h' ia = Some (Inode i)" and fa': "objs h' fa = Some (File fd')"
    and ba: "data fd' = Some ba" and Y: "objs h' ba = Some (Buf Y)"
    and lenY: "length Y = unat (size_f fd')"
    and ple: "ppos \<le> size_f fd'"
    and zer: "take (unat ppos - unat ?s) (drop (unat ?s) Y) = replicate (unat ppos - unat ?s) 0"
    by blast
  from lt have sp: "?s \<le> ppos" by simp
  with ple have le: "?s \<le> size_f fd'" by simp
  have sub: "unat (ppos - ?s) = unat ppos - unat ?s" using sp by (simp add: unat_sub)
  have "unat (size_f fd' - ?s) = unat (size_f fd') - unat ?s" using le by (simp add: unat_sub)
  moreover have "unat ppos \<le> unat (size_f fd')" using ple by (simp add: word_le_nat_alt)
  ultimately have "ppos - ?s \<le> size_f fd' - ?s" using sub by (simp add: word_le_nat_alt)
  then have k: "min (ppos - ?s) (size_f fd' - ?s) = ppos - ?s" by (simp add: min_def)
  from read_in_range [OF ia' pr fa' ba Y lenY le, of "ppos - ?s" ucap] k nn cap zer sub
  show ?thesis unfolding f by simp
qed

text \<open>A successful vtfs_write keeps the invariant of the node.\<close>

lemma write_keeps_file_ok:
  assumes ok: "file_ok h file"
    and w: "vtfs_write h file ubuf len ppos c junk = Inr (Inr n, ppos', h')"
  shows "file_ok h' file"
proof -
  from file_okD [OF ok] obtain ia i fa fd where
    f: "file = Some ia" and ia: "objs h ia = Some (Inode i)" and pr: "i_private i = Some fa"
    and fa: "objs h fa = Some (File fd)"
    and dat: "data fd = None \<or>
              (\<exists>ba bs. data fd = Some ba \<and> objs h ba = Some (Buf bs)
                        \<and> length bs = unat (size_f fd))"
    by blast
  have z: "data fd = None \<Longrightarrow> size_f fd = 0"
    using file_ok_NULL [OF ok, of i fd] ia pr fa
    unfolding f by (simp add: get_inode_live get_file_live)
  from write_post [OF ia pr fa dat w [unfolded f]] obtain fd' where
    ia': "objs h' ia = Some (Inode i)" and fa': "objs h' fa = Some (File fd')"
    and sz: "size_f fd' = max (ppos + len) (size_f fd)"
    and alt: "(data fd' = None \<and> len = 0 \<and> \<not> size_f fd < ppos \<and> data fd = None) \<or>
         (\<exists>ba Y. data fd' = Some ba \<and> objs h' ba = Some (Buf Y)
            \<and> length Y = unat (size_f fd'))"
    by blast
  from alt show ?thesis
  proof
    assume a: "data fd' = None \<and> len = 0 \<and> \<not> size_f fd < ppos \<and> data fd = None"
    with z have "size_f fd = 0" by simp
    with a sz have "size_f fd' = 0" by (simp add: word_gt_0)
    with a show ?thesis
      unfolding f file_ok_def
      by (simp add: get_inode_live [OF ia'] get_file_live [OF fa'] pr)
  next
    assume "\<exists>ba Y. data fd' = Some ba \<and> objs h' ba = Some (Buf Y)
            \<and> length Y = unat (size_f fd')"
    then show ?thesis
      unfolding f file_ok_def
      by (auto simp: get_inode_live [OF ia'] get_file_live [OF fa'] pr)
  qed
qed

lemma mem_write_ok:
  assumes "objs h a = Some (Buf old)" and "0 \<le> off" and "nat off + length bs \<le> length old"
  shows "\<exists>h'. mem_write h (Some a) off bs = Inr h'"
  using assms by (simp add: mem_write_def)

text \<open>
  vtfs_write on a well-formed node returns its length whenever \<open>krealloc\<close> does not fail,
  the user buffer has \<open>len\<close> readable bytes, the offset is not negative and the end of
  the write does not wrap around.
\<close>

lemma write_succeeds:
  assumes ok: "file_ok h file"
    and c: "c \<noteq> AllocFail" and ub: "unat len \<le> length ubuf"
    and nn: "0 \<le> sint ppos" and nw: "unat ppos + unat len < 2 ^ 64"
  shows "\<exists>h'. vtfs_write h file ubuf len ppos c junk = Inr (Inr len, ppos + len, h')"
proof -
  from file_okD [OF ok] obtain ia i fa fd where
    f: "file = Some ia" and ia: "objs h ia = Some (Inode i)" and pr: "i_private i = Some fa"
    and fa: "objs h fa = Some (File fd)"
    and dat: "data fd = None \<or>
              (\<exists>ba bs. data fd = Some ba \<and> objs h ba = Some (Buf bs)
                        \<and> length bs = unat (size_f fd))"
    by blast
  have z: "data fd = None \<Longrightarrow> size_f fd = 0"
    using file_ok_NULL [OF ok, of i fd] ia pr fa
    unfolding f by (simp add: get_inode_live get_file_live)
  from dat have dat': "data fd = None \<or> (\<exists>a bs. data fd = Some a \<and> objs h a = Some (Buf bs))"
    by blast
  let ?ns = "max (ppos + len) (size_f fd)"
  let ?src = "take (unat len) ubuf"
  note unf = write_unfold [OF ia pr fa, of ubuf len ppos c junk]
  have cfu: "copy_from_user ubuf (unat len) = (?src, 0)"
    using ub by (simp add: copy_from_user_def)
  have lsrc: "length ?src = unat len" using ub by simp
  have off: "nat (sint ppos) = unat ppos" using nn by (rule nat_sint_unat)
  have sum: "unat (ppos + len) = unat ppos + unat len"
    using nw by (simp add: unat_add_lem [THEN iffD1])
  show ?thesis
  proof (cases "size_f fd < ?ns")
    case True
    then have ns: "?ns = ppos + len" by (auto simp: max_def)
    from grow_post [OF fa dat' True c, of junk] obtain ba Yg h4 where
      g: "vtfs_write_grow h fa fd ?ns c junk = Inr (Some h4)"
      and fa4: "objs h4 fa = Some (File (fd\<lparr>data := Some ba, size_f := ?ns\<rparr>))"
      and ba4: "objs h4 ba = Some (Buf Yg)" and lenYg: "length Yg = unat ?ns"
      by blast
    have "nat (sint ppos) + length ?src \<le> length Yg"
      using off lsrc lenYg ns sum by simp
    from mem_write_ok [OF ba4 nn this] obtain h5 where
      "mem_write h4 (Some ba) (sint ppos) ?src = Inr h5" by blast
    with unf True g cfu show ?thesis
      unfolding f by (simp add: get_file_live [OF fa4])
  next
    case False
    then have ns: "?ns = size_f fd" by (auto simp: max_def)
    then have "ppos + len \<le> size_f fd" by (simp add: max_def split: if_splits)
    then have fit: "unat ppos + unat len \<le> unat (size_f fd)"
      using sum by (simp add: word_le_nat_alt)
    have "\<exists>h5. mem_write h (data fd) (sint ppos) ?src = Inr h5"
    proof (cases "unat len = 0")
      case True
      then show ?thesis using lsrc by (simp add: mem_write_def)
    next
      case False
      with fit have "size_f fd \<noteq> 0" by (auto simp: unat_eq_0)
      with z have "data fd \<noteq> None" by auto
      with dat obtain ba bs where ba: "data fd = Some ba" and bs: "objs h ba = Some (Buf bs)"
        and len: "length bs = unat (size_f fd)" by auto
      have "nat (sint ppos) + length ?src \<le> length bs"
        using off lsrc len fit by simp
      from mem_write_ok [OF bs nn this] ba show ?thesis by simp
    qed
    then obtain h5 where "mem_write h (data fd) (sint ppos) ?src = Inr h5" by blast
    with unf False cfu show ?thesis
      unfolding f by (simp add: get_file_live [OF fa])
  qed
qed

section \<open>The example runs\<close>

lemma mounted:
  "vtfs_fill_super empty_heap True True True True True = Inr (Inr (), Some 3, fs_mounted)"
  by (simp add: vtfs_fill_super_def empty_heap_def state_defs prim_defs fun_eq_iff)

lemma created_a:
  "vtfs_create fs_mounted (Some 3) (Some \<lparr>d_name = ''a'', d_inode = None\<rparr>) 0x81A4
       True True True
     = Inr (Inr (), Some 5, fs_a)"
  by (simp add: vtfs_create_def state_defs prim_defs fun_eq_iff)

lemma written_hi:
  "vtfs_write fs_a (Some 5) [0x68, 0x69] 2 0 AllocMove 0xAA = Inr (Inr 2, 2, fs_a_hi)"
  by (simp add: vtfs_write_def vtfs_write_grow_def state_defs prim_defs fun_eq_iff)

lemma file_ok_examples: "file_ok fs_a (Some 5)" "file_ok fs_a_hi (Some 5)" "file_ok fs_ab (Some 5)"
  by (simp_all add: file_ok_def state_defs prim_defs)

lemma example_zero_fill:
  "vtfs_write fs_a (Some 5) [0x41, 0x42] 2 0 AllocMove 0xAA = Inr (Inr 2, 2, fs_ab)
   \<and> vtfs_write fs_ab (Some 5) [0x58] 1 5 AllocMove 0xAA = Inr (Inr 1, 6, fs_abx)
   \<and> vtfs_read fs_abx (Some 5) 6 6 0 = Inr (Inr 6, [0x41, 0x42, 0, 0, 0, 0x58], 6, fs_abx)"
  by (simp add: vtfs_write_def vtfs_write_grow_def vtfs_read_def
        state_defs prim_defs fun_eq_iff numeral_3_eq_3)

section \<open>The claims\<close>

text \<open>
  C1. After \<open>link\<close> has given a file a second name, an \<open>unlink\<close> of the original name
  must leave the content readable under the remaining name, and the shared content buffer
  must be freed once, only when the link count reaches zero.

  In vtfs.c the node made by vtfs_link copies the \<open>data\<close> pointer of the old node, and
  vtfs_unlink frees \<open>data\<close> and the node it removes without looking at the link count. In
  the run below the file \<open>a\<close> holds \<open>hi\<close> and is linked as \<open>b\<close>; both names read
  \<open>hi\<close>. The unlink of \<open>a\<close> returns 0 and leaves the link count at 1 and \<open>b\<close> in the
  directory, but the inode's \<open>i_private\<close> and the \<open>data\<close> of \<open>b\<close> now point to freed
  objects: the read through \<open>b\<close> goes through freed memory, and the unlink of \<open>b\<close>
  frees the buffer a second time.
\<close>

theorem hard_link_unlink_original_use_after_free:
  "vtfs_link fs_a_hi (Some \<lparr>d_name = ''a'', d_inode = Some 5\<rparr>) (Some 3)
       (Some \<lparr>d_name = ''b'', d_inode = None\<rparr>) True True = Inr (Inr (), Some 5, fs_a_b)
   \<and> vtfs_read fs_a_b (Some 5) 2 2 0 = Inr (Inr 2, [0x68, 0x69], 2, fs_a_b)
   \<and> vtfs_unlink fs_a_b (Some 3) (Some \<lparr>d_name = ''a'', d_inode = Some 5\<rparr>)
       = Inr (Inr (), fs_b)
   \<and> vtfs_lookup fs_b (Some 3) (Some \<lparr>d_name = ''b'', d_inode = None\<rparr>) = Inr (Some 5)
   \<and> map_sum id i_nlink (get_inode fs_b (Some 5)) = Inr 1
   \<and> map_sum id i_private (get_inode fs_b (Some 5)) = Inr (Some 4)
   \<and> map_sum id data (get_file fs_b (Some 7)) = Inr (Some 6)
   \<and> objs fs_b 4 = None \<and> objs fs_b 6 = None
   \<and> vtfs_read fs_b (Some 5) 2 2 0 = Inl Dangling
   \<and> vtfs_unlink fs_b (Some 3) (Some \<lparr>d_name = ''b'', d_inode = Some 5\<rparr>) = Inl DoubleFree"
  by (simp add: vtfs_link_def vtfs_read_def vtfs_unlink_def vtfs_lookup_def
        state_defs prim_defs fun_eq_iff)

text \<open>
  C2. A read at an offset greater than or equal to the size of the file must return no
  bytes and no error, whatever \<open>len\<close> is; otherwise it returns \<open>min(len, size - offset)\<close>
  bytes from the offset on.

  vtfs_read computes \<open>available = size - *ppos\<close> in the unsigned type \<open>size_t\<close> and tests
  \<open>available <= 0\<close>, which holds only when the offset equals the size. For the file of two
  bytes and the offset 5 the difference wraps around to \<open>2^64 - 3\<close>, \<open>to_copy\<close> is the
  whole \<open>len = 4\<close>, and \<open>copy_to_user\<close> reads four bytes at \<open>data + 5\<close>, beyond the
  buffer. At the offset 2, the size, the read returns no bytes. For the offsets from 0
  to the size, lemma \<open>read_in_range\<close> gives the \<open>min(len, size - offset)\<close> bytes.
\<close>

theorem read_past_size_out_of_bounds:
  "vtfs_read fs_a_hi (Some 5) 4 4 5 = Inl OutOfBounds
   \<and> map_sum id size_f (get_file fs_a_hi (Some 4)) = Inr 2
   \<and> (2 :: size_t) - 5 = 0xFFFFFFFFFFFFFFFD
   \<and> min (4 :: size_t) (2 - 5) = 4
   \<and> vtfs_read fs_a_hi (Some 5) 4 4 2 = Inr (Inr 0, [], 2, fs_a_hi)"
  by (simp add: vtfs_read_def state_defs prim_defs)

text \<open>
  C3. \<open>mkdir\<close> of a name that is already present in the parent must fail with
  \<open>AlreadyExists\<close>, insert no entry and allocate no inode.

  vtfs_mkdir never searches the children of the parent, unlike vtfs_create and vtfs_link,
  which return \<open>-EEXIST\<close>. In the root of \<open>fs_a\<close> the name \<open>a\<close> is present (the lookup
  finds inode 5); vtfs_mkdir of \<open>a\<close> returns 0, allocates the inode 8 and appends a second
  entry \<open>a\<close>, while vtfs_create of the same name returns \<open>-EEXIST\<close>.
\<close>

theorem mkdir_existing_name_succeeds:
  "vtfs_lookup fs_a (Some 3) (Some \<lparr>d_name = ''a'', d_inode = None\<rparr>) = Inr (Some 5)
   \<and> vtfs_mkdir fs_a (Some 3) (Some \<lparr>d_name = ''a'', d_inode = None\<rparr>) 0x1ED
         True True True True
       = Inr (Inr (), Some 8, fs_a_a)
   \<and> vtfs_iterate fs_a_a (Some 3) 0 10
       = Inr (Inr (), [(''a'', 1, DT_REG), (''a'', 2, DT_DIR)], 2)
   \<and> vtfs_create fs_a (Some 3) (Some \<lparr>d_name = ''a'', d_inode = None\<rparr>) 0x81A4
         True True True
       = Inr (Inl EEXIST, None, fs_a)"
  by (simp add: vtfs_lookup_def vtfs_mkdir_def vtfs_iterate_def vtfs_create_def
        state_defs prim_defs fun_eq_iff)

text \<open>
  C4. \<open>unlink\<close> of a name whose target is a directory must fail with \<open>IsADirectory\<close> and
  leave the entries of the parent, the target and its link count unchanged.

  vtfs_unlink does not look at the mode of the node it finds. For the directory \<open>d\<close> made
  by vtfs_mkdir it returns 0: the entry is gone from the root, the node at 4 is freed and
  the link count of the inode 6 drops to 0, while the \<open>vtfs_dir\<close> at 5 stays allocated
  with \<open>self\<close> pointing to the freed node.
\<close>

theorem unlink_directory_succeeds:
  "vtfs_mkdir fs_mounted (Some 3) (Some \<lparr>d_name = ''d'', d_inode = None\<rparr>) 0x1ED
         True True True True
       = Inr (Inr (), Some 6, fs_d)
   \<and> map_sum id mode (get_file fs_d (Some 4)) = Inr 0x41ED \<and> S_ISDIR 0x41ED
   \<and> vtfs_unlink fs_d (Some 3) (Some \<lparr>d_name = ''d'', d_inode = Some 6\<rparr>)
       = Inr (Inr (), fs_d_unlinked)
   \<and> vtfs_lookup fs_d_unlinked (Some 3) (Some \<lparr>d_name = ''d'', d_inode = None\<rparr>) = Inr None
   \<and> map_sum id i_nlink (get_inode fs_d_unlinked (Some 6)) = Inr 0
   \<and> get_dir fs_d_unlinked (Some 5) = Inr \<lparr>children = [], self = Some 4\<rparr>
   \<and> get_file fs_d_unlinked (Some 4) = Inl Dangling"
  by (simp add: vtfs_lookup_def vtfs_mkdir_def vtfs_unlink_def
        state_defs prim_defs fun_eq_iff)

text \<open>
  C5. A directory is enumerated in insertion order: every new entry comes after all
  existing ones, whether made by \<open>create\<close>, \<open>mkdir\<close> or \<open>link\<close>, and the enumeration
  from a start offset yields the entries from that index on.

  vtfs_mkdir and vtfs_link use \<open>list_add_tail\<close>, vtfs_create uses \<open>list_add\<close>, which
  puts the new node first. After the files \<open>a\<close> and then \<open>b\<close> are created, vtfs_iterate
  yields \<open>b\<close> before \<open>a\<close>, and the enumeration resumed at offset 1, after one entry
  was read when only \<open>a\<close> existed, yields \<open>a\<close> again. The link \<open>b\<close> of \<open>fs_a_b\<close>
  comes after \<open>a\<close>.
\<close>

theorem create_prepends_entry:
  "vtfs_iterate fs_a (Some 3) 0 10 = Inr (Inr (), [(''a'', 1, DT_REG)], 1)
   \<and> vtfs_create fs_a (Some 3) (Some \<lparr>d_name = ''b'', d_inode = None\<rparr>) 0x81A4
         True True True
       = Inr (Inr (), Some 7, fs_b_a)
   \<and> vtfs_iterate fs_b_a (Some 3) 0 10
       = Inr (Inr (), [(''b'', 2, DT_REG), (''a'', 1, DT_REG)], 2)
   \<and> vtfs_iterate fs_b_a (Some 3) 1 10 = Inr (Inr (), [(''a'', 1, DT_REG)], 2)
   \<and> vtfs_iterate fs_a_b (Some 3) 0 10
       = Inr (Inr (), [(''a'', 1, DT_REG), (''b'', 0, DT_REG)], 2)"
  by (simp add: vtfs_create_def vtfs_iterate_def state_defs prim_defs fun_eq_iff)

text \<open>
  C6. After any sequence of \<open>create\<close>, \<open>mkdir\<close>, \<open>link\<close>, \<open>unlink\<close> and \<open>rmdir\<close>
  no two entries of a directory share a name, and a lookup finds a name exactly when it
  was inserted and not removed since.

  Because vtfs_mkdir does not search for the name, \<open>create a\<close> followed by \<open>mkdir a\<close>
  leaves the nodes 4 and 6, both named \<open>a\<close>, in the children of the root. The unlink
  of \<open>a\<close> then returns 0 and removes the first of them, and the lookup of \<open>a\<close> still
  finds the other.
\<close>

theorem duplicate_names_after_mkdir:
  "vtfs_create fs_mounted (Some 3) (Some \<lparr>d_name = ''a'', d_inode = None\<rparr>) 0x81A4
         True True True
       = Inr (Inr (), Some 5, fs_a)
   \<and> vtfs_mkdir fs_a (Some 3) (Some \<lparr>d_name = ''a'', d_inode = None\<rparr>) 0x1ED
         True True True True
       = Inr (Inr (), Some 8, fs_a_a)
   \<and> get_dir fs_a_a (Some 1) = Inr \<lparr>children = [4, 6], self = Some 2\<rparr>
   \<and> map_sum id name (get_file fs_a_a (Some 4)) = Inr (Some ''a'')
   \<and> map_sum id name (get_file fs_a_a (Some 6)) = Inr (Some ''a'')
   \<and> vtfs_unlink fs_a_a (Some 3) (Some \<lparr>d_name = ''a'', d_inode = Some 5\<rparr>)
       = Inr (Inr (), fs_a_dir)
   \<and> vtfs_lookup fs_a_dir (Some 3) (Some \<lparr>d_name = ''a'', d_inode = None\<rparr>) = Inr (Some 8)"
  by (simp add: vtfs_create_def vtfs_lookup_def vtfs_mkdir_def vtfs_unlink_def
        state_defs prim_defs fun_eq_iff)

text \<open>
  C7. A write of \<open>bytes\<close> at an offset followed by a read of \<open>len(bytes)\<close> at that
  offset returns exactly \<open>bytes\<close>, and a write at an offset beyond the size fills the gap
  between the old size and the offset with zero bytes; writing \<open>AB\<close> at 0 into an empty
  file and then \<open>X\<close> at 5 makes the bytes 0 to 5 read \<open>A B 0 0 0 X\<close>.

  The write is one that returned its length (lemma \<open>write_succeeds\<close> says when it
  does); the bytes written are the first \<open>len\<close> bytes at \<open>buf\<close>. The node satisfies
  the invariant \<open>file_ok\<close>, and the buffer given to the read has room for the bytes
  asked for. For the gap, the old size is a non-negative \<open>loff_t\<close>, since the read is
  given it as its offset.
\<close>

theorem write_read_roundtrip_zero_fill:
  assumes ok: "file_ok h file"
    and gi: "get_inode h file = Inr i" and gf: "get_file h (i_private i) = Inr fd"
    and w: "vtfs_write h file ubuf len ppos c junk = Inr (Inr n, ppos', h')"
  shows "n = len \<and> ppos' = ppos + len \<and> length (take (unat len) ubuf) = unat len
     \<and> (unat len \<le> ucap \<longrightarrow>
          vtfs_read h' file ucap len ppos
            = Inr (Inr len, take (unat len) ubuf, ppos + len, h'))
     \<and> (size_f fd < ppos \<and> 0 \<le> sint (size_f fd) \<and> unat (ppos - size_f fd) \<le> ucap \<longrightarrow>
          vtfs_read h' file ucap (ppos - size_f fd) (size_f fd)
            = Inr (Inr (ppos - size_f fd), replicate (unat (ppos - size_f fd)) 0, ppos, h'))
     \<and> vtfs_write fs_a (Some 5) [0x41, 0x42] 2 0 AllocMove 0xAA = Inr (Inr 2, 2, fs_ab)
     \<and> vtfs_write fs_ab (Some 5) [0x58] 1 5 AllocMove 0xAA = Inr (Inr 1, 6, fs_abx)
     \<and> vtfs_read fs_abx (Some 5) 6 6 0
          = Inr (Inr 6, [0x41, 0x42, 0, 0, 0, 0x58], 6, fs_abx)"
proof -
  from file_okD [OF ok] obtain ia i0 fa fd0 where
    f: "file = Some ia" and ia0: "objs h ia = Some (Inode i0)" and pr0: "i_private i0 = Some fa"
    and fa0: "objs h fa = Some (File fd0)"
    and dat0: "data fd0 = None \<or>
              (\<exists>ba bs. data fd0 = Some ba \<and> objs h ba = Some (Buf bs)
                        \<and> length bs = unat (size_f fd0))"
    by blast
  from write_post [OF ia0 pr0 fa0 dat0 w [unfolded f]]
  have eqs: "n = len" "ppos' = ppos + len" "unat len \<le> length ubuf" by blast+
  then have l: "length (take (unat len) ubuf) = unat len" by simp
  have rt: "unat len \<le> ucap \<longrightarrow>
          vtfs_read h' file ucap len ppos
            = Inr (Inr len, take (unat len) ubuf, ppos + len, h')"
    using roundtrip [OF ok w] by blast
  have zf: "size_f fd < ppos \<and> 0 \<le> sint (size_f fd) \<and> unat (ppos - size_f fd) \<le> ucap \<longrightarrow>
          vtfs_read h' file ucap (ppos - size_f fd) (size_f fd)
            = Inr (Inr (ppos - size_f fd), replicate (unat (ppos - size_f fd)) 0, ppos, h')"
    using zero_fill [OF ok gi gf w] by blast
  from eqs(1,2) l rt zf example_zero_fill show ?thesis by blast
qed

theorem write_read_roundtrip_zero_fill_witness:
  "file_ok fs_ab (Some 5)
   \<and> vtfs_write fs_ab (Some 5) [0x58] 1 5 AllocMove 0xAA = Inr (Inr 1, 6, fs_abx)
   \<and> vtfs_read fs_abx (Some 5) 3 1 5 = Inr (Inr 1, [0x58], 6, fs_abx)
   \<and> vtfs_read fs_abx (Some 5) 3 3 2 = Inr (Inr 3, [0, 0, 0], 5, fs_abx)"
proof -
  have ok: "file_ok fs_ab (Some 5)" by (rule file_ok_examples)
  have gi: "get_inode fs_ab (Some 5)
              = Inr \<lparr>i_ino = 1, i_mode = 0x81A4, i_nlink = 1, i_private = Some 4\<rparr>"
    by (simp add: state_defs prim_defs)
  have gf: "get_file fs_ab
              (i_private \<lparr>i_ino = 1, i_mode = 0x81A4, i_nlink = 1, i_private = Some 4\<rparr>)
              = Inr \<lparr>list = Some 1, name = Some ''a'', ino = 1, mode = 0x81A4,
                     inode = Some 5, size_f = 2, data = Some 6\<rparr>"
    by (simp add: state_defs prim_defs)
  have w: "vtfs_write fs_ab (Some 5) [0x58] 1 5 AllocMove 0xAA = Inr (Inr 1, 6, fs_abx)"
    using example_zero_fill by blast
  note t = write_read_roundtrip_zero_fill [OF ok gi gf w, of 3]
  from t have a: "vtfs_read fs_abx (Some 5) 3 1 5 = Inr (Inr 1, [0x58], 6, fs_abx)"
    by simp
  from t have "vtfs_read fs_abx (Some 5) 3 3 2 = Inr (Inr 3, replicate 3 0, 5, fs_abx)"
    by simp
  moreover have "replicate 3 (0 :: byte) = [0, 0, 0]"
    by (simp add: numeral_3_eq_3)
  ultimately have b: "vtfs_read fs_abx (Some 5) 3 3 2 = Inr (Inr 3, [0, 0, 0], 5, fs_abx)"
    by simp
  from ok w a b show ?thesis by blast
qed

text \<open>
  C8. A write that has to grow the content buffer and whose allocation fails reports an
  out-of-memory error and leaves the buffer as it was, with the same size and the same
  bytes.

  The write has to grow the buffer when \<open>new_size > file_data->size\<close>, where \<open>new_size\<close>
  is the larger of \<open>*ppos + len\<close> and the size. When \<open>krealloc\<close> fails, vtfs_write returns
  \<open>-ENOMEM\<close> with the whole store and \<open>*ppos\<close> unchanged.
\<close>

theorem write_alloc_failure_no_change:
  assumes ok: "file_ok h file"
    and gi: "get_inode h file = Inr i" and gf: "get_file h (i_private i) = Inr fd"
    and grow: "max (ppos + len) (size_f fd) > size_f fd"
  shows "vtfs_write h file ubuf len ppos AllocFail junk = Inr (Inl ENOMEM, ppos, h)"
proof -
  from file_okD [OF ok] obtain ia i0 fa fd0 where
    f: "file = Some ia" and ia0: "objs h ia = Some (Inode i0)" and pr0: "i_private i0 = Some fa"
    and fa0: "objs h fa = Some (File fd0)"
    and dat0: "data fd0 = None \<or>
              (\<exists>ba bs. data fd0 = Some ba \<and> objs h ba = Some (Buf bs)
                        \<and> length bs = unat (size_f fd0))"
    by blast
  from gi f ia0 have [simp]: "i0 = i" by (simp add: get_inode_def)
  from gf pr0 fa0 have [simp]: "fd0 = fd" by (simp add: get_file_def)
  from dat0 have dat: "data fd = None \<or> (\<exists>a bs. data fd = Some a \<and> objs h a = Some (Buf bs))"
    by auto
  from write_unfold [of h ia i fa fd ubuf len ppos AllocFail junk] ia0 pr0 fa0 grow
    grow_fail [OF dat, of fa "max (ppos + len) (size_f fd)" junk]
  show ?thesis unfolding f by simp
qed

theorem write_alloc_failure_no_change_witness:
  "file_ok fs_ab (Some 5)
   \<and> max (5 + 1) (2 :: size_t) > 2
   \<and> vtfs_write fs_ab (Some 5) [0x58] 1 5 AllocFail 0xAA = Inr (Inl ENOMEM, 5, fs_ab)"
proof -
  have ok: "file_ok fs_ab (Some 5)" by (rule file_ok_examples)
  have gi: "get_inode fs_ab (Some 5)
              = Inr \<lparr>i_ino = 1, i_mode = 0x81A4, i_nlink = 1, i_private = Some 4\<rparr>"
    by (simp add: state_defs prim_defs)
  have gf: "get_file fs_ab
              (i_private \<lparr>i_ino = 1, i_mode = 0x81A4, i_nlink = 1, i_private = Some 4\<rparr>)
              = Inr \<lparr>list = Some 1, name = Some ''a'', ino = 1, mode = 0x81A4,
                     inode = Some 5, size_f = 2, data = Some 6\<rparr>"
    by (simp add: state_defs prim_defs)
  have grow: "max (5 + 1) (size_f \<lparr>list = Some 1, name = Some ''a'', ino = 1, mode = 0x81A4,
                     inode = Some 5, size_f = 2, data = Some 6\<rparr>) > (size_f \<lparr>list = Some 1, name = Some ''a'', ino = 1, mode = 0x81A4,
                     inode = Some 5, size_f = 2, data = Some 6\<rparr> :: size_t)"
    by simp
  from write_alloc_failure_no_change [OF ok gi gf grow, of "[0x58]" "0xAA"] ok
  show ?thesis by simp
qed

text \<open>
  C10. A read changes nothing of what is stored for the file: its size and its bytes are
  the same before and after, the file position advances by exactly the number of bytes
  the call returns, and it does not advance when the call returns an error.

  This covers every call of vtfs_read that has a result; a call that reads through a
  dangling pointer or outside the buffer has none. On a node that satisfies \<open>file_ok\<close>
  every read at an offset from 0 to the size has a result (lemma \<open>read_has_result\<close>).
\<close>

theorem read_only_moves_position:
  assumes "vtfs_read h file ucap len ppos = Inr (r, out, ppos', h')"
  shows "h' = h \<and>
         (case r of Inr n \<Rightarrow> ppos' = ppos + n \<and> length out = unat n
          | Inl e \<Rightarrow> ppos' = ppos)"
proof -
  from assms obtain i where i: "get_inode h file = Inr i"
    by (auto simp: vtfs_read_def fbind_Inr)
  show ?thesis
  proof (cases "i_private i")
    case None
    with assms i show ?thesis by (auto simp: vtfs_read_def fbind_def)
  next
    case (Some fa)
    with assms i obtain fd where fd: "get_file h (Some fa) = Inr fd"
      by (auto simp: vtfs_read_def fbind_Inr)
    consider "data fd = None" | "data fd \<noteq> None" "size_f fd - ppos \<le> 0"
      | "data fd \<noteq> None" "\<not> size_f fd - ppos \<le> 0"
      by blast
    then show ?thesis
    proof cases
      case 1
      with assms i Some fd show ?thesis
        by (auto simp: vtfs_read_def fbind_def)
    next
      case 2
      with assms i Some fd show ?thesis
        by (auto simp: vtfs_read_def fbind_def Let_def)
    next
      case 3
      with assms i Some fd obtain src where
        src: "mem_read h (data fd) (sint ppos) (unat (min len (size_f fd - ppos))) = Inr src"
        and res: "(case copy_to_user ucap src of
                     (out, not_copied) \<Rightarrow>
                       if not_copied \<noteq> 0 then Inr (Inl EFAULT, out, ppos, h)
                       else Inr (Inr (min len (size_f fd - ppos)), out, ppos + min len (size_f fd - ppos), h))
                 = (Inr (r, out, ppos', h') :: fault + ((errno + size_t) \<times> byte list \<times> loff_t \<times> heap))"
        by (auto simp: vtfs_read_def fbind_def Let_def split: sum.splits)
      from src have "length src = unat (min len (size_f fd - ppos))" by (rule mem_read_length)
      with res show ?thesis
        by (auto simp: copy_to_user_def split: if_splits)
    qed
  qed
qed

theorem read_only_moves_position_witness:
  "vtfs_read fs_a_hi (Some 5) 1 1 0 = Inr (Inr 1, [0x68], 1, fs_a_hi)
   \<and> vtfs_read fs_a_hi (Some 5) 0 1 1 = Inr (Inl EFAULT, [], 1, fs_a_hi)"
proof -
  have r1: "vtfs_read fs_a_hi (Some 5) 1 1 0 = Inr (Inr 1, [0x68], 1, fs_a_hi)"
    by (simp add: vtfs_read_def state_defs prim_defs)
  have r2: "vtfs_read fs_a_hi (Some 5) 0 1 1 = Inr (Inl EFAULT, [], 1, fs_a_hi)"
    by (simp add: vtfs_read_def state_defs prim_defs)
  from read_only_moves_position [OF r1] read_only_moves_position [OF r2] r1 r2
  show ?thesis by simp
qed

end
